theory Spec2Isabelle
  imports Main "HOL-Library.Sublist"
begin

section \<open>The run coordinator of lighthouse-core/runner.js\<close>

text \<open>
  \<^verbatim>\<open>Runner.run(driver, opts)\<close> has a synchronous part, which writes three fields of
  \<^verbatim>\<open>opts\<close>, checks the URL, classifies the configuration and builds a promise chain, and
  an asynchronous part, the chain itself. The model returns everything a caller or an
  observer can see of one call: whether the call threw or which promise it returned (by
  the state that promise ends in), the calls made to the other modules, in order, and the
  options object as the call leaves it.

  Values the coordinator only hands on (the driver, the passes, the artifacts, the
  aggregation specification and the aggregations) are JavaScript values it never inspects.
\<close>

subsection \<open>Values, errors, calls and promises\<close>

datatype jsval =
    JNull
  | JBool bool
  | JNum int
  | JStr string
  | JArr "jsval list"
  | JObj "(string \<times> jsval) list"

text \<open>
  \<open>Error m\<close> is \<^verbatim>\<open>new Error(m)\<close>, raised by the coordinator or by another module;
  \<open>TypeError m\<close> is what reading a property of \<^verbatim>\<open>null\<close> or \<^verbatim>\<open>undefined\<close> raises.
\<close>

datatype error = Error string | TypeError string

text \<open>
  A call of a function of another module either throws or returns; what it returns is a
  plain value or a promise. A promise is given by what becomes of it: \<open>Later t s\<close> is
  pending when it is returned and settles as \<open>s\<close> at tick \<open>t\<close>, \<open>Never\<close> stays pending for
  ever. The ticks order the completions of concurrent promises; of two promises settling
  at the same tick, the one created first counts as the earlier. A plain value is there
  before any tick: what waits for it runs before what waits for a pending promise.
\<close>

datatype 'a settle = Resolve 'a | Reject error

datatype 'a ret = Plain 'a | Later nat "'a settle" | Never

datatype 'a call = Returns "'a ret" | Throws error

text \<open>The state in which a promise of the chain ends.\<close>

datatype 'a promise = Fulfilled 'a | Rejected error | Pending

subsection \<open>The data of a run\<close>

text \<open>The object \<^verbatim>\<open>url.parse\<close> of Node returns; a field that is \<^verbatim>\<open>null\<close> is \<open>None\<close>.\<close>

record parsed_url =
  protocol :: "string option"
  slashes :: "bool option"
  auth :: "string option"
  host :: "string option"
  port :: "string option"
  hostname :: "string option"
  hash :: "string option"
  search :: "string option"
  query :: "string option"
  pathname :: "string option"
  path :: "string option"
  href :: string

text \<open>An audit result is an object with a \<^verbatim>\<open>name\<close>; the coordinator reads nothing else of it.\<close>

record audit_result =
  name :: string
  rawValue :: jsval

text \<open>
  An audit of \<^verbatim>\<open>config.audits\<close>: \<open>description\<close> is \<^verbatim>\<open>audit.meta.description\<close>, \<open>audit\<close> is
  the static method \<^verbatim>\<open>audit.audit\<close>.
\<close>

record audit_descriptor =
  description :: string
  audit :: "jsval \<Rightarrow> audit_result call"

text \<open>
  The configuration. A field that is absent (\<^verbatim>\<open>undefined\<close> or \<^verbatim>\<open>null\<close>, the falsy values
  an array or an object field can have) is \<open>None\<close>.
\<close>

record config =
  passes :: "jsval option"
  audits :: "audit_descriptor list option"
  artifacts :: "jsval option"
  auditResults :: "audit_result list option"
  aggregations :: "jsval option"

text \<open>The two flags are read for their truth value: an absent flag is \<open>False\<close>.\<close>

record flags =
  saveArtifacts :: bool
  saveAssets :: bool

text \<open>
  The options object. \<^verbatim>\<open>url\<close> and \<^verbatim>\<open>config\<close> are required; \<^verbatim>\<open>flags\<close> may be absent, and
  \<^verbatim>\<open>initialUrl\<close> and \<^verbatim>\<open>driver\<close> are the two fields the coordinator adds.
\<close>

record opts =
  url :: string
  initialUrl :: "string option"
  driver :: "jsval option"
  config :: config
  flags :: "flags option"

text \<open>
  The modules \<^verbatim>\<open>runner.js\<close> requires and calls: Node's \<^verbatim>\<open>url\<close>, \<^verbatim>\<open>GatherRunner\<close>,
  \<^verbatim>\<open>assetSaver\<close> and \<^verbatim>\<open>Aggregator\<close>. None of them is part of the file; a run is taken
  against any behaviour of theirs. They are assumed not to write to \<^verbatim>\<open>opts\<close>.
\<close>

record env =
  url_parse :: "string \<Rightarrow> parsed_url"
  url_format :: "parsed_url \<Rightarrow> string"
  GatherRunner_run :: "jsval \<Rightarrow> opts \<Rightarrow> jsval call"
  assetSaver_saveArtifacts :: "jsval \<Rightarrow> jsval call"
  assetSaver_saveAssets :: "opts \<Rightarrow> jsval \<Rightarrow> jsval call"
  Aggregator_aggregate :: "jsval \<Rightarrow> audit_result list \<Rightarrow> jsval call"

text \<open>
  What a run does to the other modules, in the order it happens: the three kinds of log
  call, and the calls of the gatherer, of the two savers, of the audit at a position of
  \<^verbatim>\<open>config.audits\<close> and of the aggregator, each with its arguments.
\<close>

datatype event =
    Warn string string
  | Log string string
  | Verbose string string
  | GatherRun jsval opts
  | SaveArtifacts jsval
  | SaveAssets opts jsval
  | AuditCall nat jsval
  | Aggregate jsval "audit_result list"

text \<open>
  The object the \<^verbatim>\<open>reduce\<close> of line 106 builds from \<^verbatim>\<open>{}\<close>: its own properties, and
  its prototype, \<open>None\<close> as long as it is \<^verbatim>\<open>Object.prototype\<close>.
\<close>

record formatted =
  own :: "string \<rightharpoonup> audit_result"
  prototype :: "audit_result option"

text \<open>The object the last \<^verbatim>\<open>then\<close> of the aggregation branch returns.\<close>

record report =
  report_initialUrl :: "string option"
  report_url :: string
  report_audits :: formatted
  report_aggregations :: jsval

text \<open>What the returned promise resolves to: the list of audit results, or the report.\<close>

datatype resolved = Flat "audit_result list" | Report report

datatype outcome = Thrown error | Returned "resolved promise"

record result =
  outcome :: outcome
  trace :: "event list"
  opts_after :: opts

subsection \<open>Promises\<close>

text \<open>
  A promise of the chain together with the calls made until it settles.
  \<open>promise_then p cb\<close> is \<^verbatim>\<open>p.then(cb)\<close>: the callback runs on the value \<open>p\<close> is fulfilled
  with; a rejected or pending \<open>p\<close> passes its state on and the callback never runs.
\<close>

type_synonym 'a chain = "event list \<times> 'a promise"

definition promise_then :: "'a chain \<Rightarrow> ('a \<Rightarrow> 'b chain) \<Rightarrow> 'b chain" where
  "promise_then p cb =
     (case p of
        (tr, Fulfilled v) \<Rightarrow> (case cb v of (tr', q) \<Rightarrow> (tr @ tr', q))
      | (tr, Rejected e) \<Rightarrow> (tr, Rejected e)
      | (tr, Pending) \<Rightarrow> (tr, Pending))"

text \<open>
  What a callback that returns the result of a call makes of the promise \<^verbatim>\<open>then\<close>
  created: a throw rejects it, a plain value fulfils it, a returned promise is followed.
\<close>

fun adopt :: "'a call \<Rightarrow> 'a promise" where
  "adopt (Throws e) = Rejected e"
| "adopt (Returns (Plain v)) = Fulfilled v"
| "adopt (Returns (Later t (Resolve v))) = Fulfilled v"
| "adopt (Returns (Later t (Reject e))) = Rejected e"
| "adopt (Returns Never) = Pending"

text \<open>
  \<^verbatim>\<open>Promise.all\<close>: it rejects with the error of the promise that rejects first, whatever
  the others do; with no rejection it stays pending if a promise does, and is otherwise
  fulfilled with the values in the order of the list.
\<close>

fun first_rejection :: "'a ret list \<Rightarrow> (nat \<times> error) option" where
  "first_rejection [] = None"
| "first_rejection (Later t (Reject e) # rs) =
     (case first_rejection rs of
        None \<Rightarrow> Some (t, e)
      | Some (t', e') \<Rightarrow> if t \<le> t' then Some (t, e) else Some (t', e'))"
| "first_rejection (Plain v # rs) = first_rejection rs"
| "first_rejection (Later t (Resolve v) # rs) = first_rejection rs"
| "first_rejection (Never # rs) = first_rejection rs"

fun resolved_value :: "'a ret \<Rightarrow> 'a option" where
  "resolved_value (Plain v) = Some v"
| "resolved_value (Later t (Resolve v)) = Some v"
| "resolved_value (Later t (Reject e)) = None"
| "resolved_value Never = None"

fun all_values :: "'a ret list \<Rightarrow> 'a list option" where
  "all_values [] = Some []"
| "all_values (r # rs) =
     (case resolved_value r of
        None \<Rightarrow> None
      | Some v \<Rightarrow> (case all_values rs of None \<Rightarrow> None | Some vs \<Rightarrow> Some (v # vs)))"

definition promise_all :: "'a ret list \<Rightarrow> 'a list promise" where
  "promise_all rs =
     (case first_rejection rs of
        Some (t, e) \<Rightarrow> Rejected e
      | None \<Rightarrow> (case all_values rs of Some vs \<Rightarrow> Fulfilled vs | None \<Rightarrow> Pending))"

subsection \<open>The phases\<close>

text \<open>\<^verbatim>\<open>s.includes(sub)\<close> on strings.\<close>

primrec str_includes :: "string \<Rightarrow> string \<Rightarrow> bool" where
  "str_includes [] sub = (sub = [])"
| "str_includes (c # cs) sub = (prefix sub (c # cs) \<or> str_includes cs sub)"

text \<open>\<^verbatim>\<open>_ => GatherRunner.run(config.passes, opts)\<close>\<close>

definition gather_step :: "env \<Rightarrow> jsval \<Rightarrow> opts \<Rightarrow> unit \<Rightarrow> jsval chain" where
  "gather_step e ps os = (\<lambda>_. ([GatherRun ps os], adopt (GatherRunner_run e ps os)))"

text \<open>
  \<^verbatim>\<open>artifacts => { assetSaver.saveArtifacts(artifacts); return artifacts; }\<close>: the value
  the call returns is dropped, a promise included, and the artifacts are returned.
\<close>

definition saveArtifacts_step :: "env \<Rightarrow> jsval \<Rightarrow> jsval chain" where
  "saveArtifacts_step e = (\<lambda>artifacts.
     ([SaveArtifacts artifacts],
      case assetSaver_saveArtifacts e artifacts of
        Throws err \<Rightarrow> Rejected err
      | Returns _ \<Rightarrow> Fulfilled artifacts))"

text \<open>\<^verbatim>\<open>artifacts => { assetSaver.saveAssets(opts, artifacts); return artifacts; }\<close>\<close>

definition saveAssets_step :: "env \<Rightarrow> opts \<Rightarrow> jsval \<Rightarrow> jsval chain" where
  "saveAssets_step e os = (\<lambda>artifacts.
     ([SaveAssets os artifacts],
      case assetSaver_saveAssets e os artifacts of
        Throws err \<Rightarrow> Rejected err
      | Returns _ \<Rightarrow> Fulfilled artifacts))"

text \<open>
  \<^verbatim>\<open>config.audits.map(audit => ...)\<close>, from position \<open>i\<close> on: each audit is announced and
  called in turn. The result is the calls made, what the audits called so far returned,
  and the error of the audit that threw, at which the map stops.
\<close>

fun map_audits ::
  "nat \<Rightarrow> audit_descriptor list \<Rightarrow> jsval \<Rightarrow> event list \<times> audit_result ret list \<times> error option"
where
  "map_audits i [] arts = ([], [], None)"
| "map_audits i (a # as) arts =
     (let status = ''Evaluating: '' @ description a in
      case audit a arts of
        Throws e \<Rightarrow> ([Log ''status'' status, AuditCall i arts], [], Some e)
      | Returns r \<Rightarrow>
          (case map_audits (Suc i) as arts of
             (tr, rs, err) \<Rightarrow> ([Log ''status'' status, AuditCall i arts] @ tr, r # rs, err)))"

text \<open>
  \<^verbatim>\<open>ret => { log.verbose('statusEnd', status); return ret; }\<close> runs for each audit whose
  value arrives, when it arrives: the log calls come in the order of completion. The
  callback of a plain value is queued while the map runs, so it comes before that of any
  pending promise, those settling at tick 0 included: a plain value counts as moment 0,
  a promise settling at tick \<open>t\<close> as moment \<open>t + 1\<close>.
\<close>

fun resolve_time :: "'a ret \<Rightarrow> nat option" where
  "resolve_time (Plain v) = Some 0"
| "resolve_time (Later t (Resolve v)) = Some (Suc t)"
| "resolve_time (Later t (Reject e)) = None"
| "resolve_time Never = None"

definition statusEnd_events :: "audit_descriptor list \<Rightarrow> audit_result ret list \<Rightarrow> event list" where
  "statusEnd_events as rs =
     map (\<lambda>(t, a). Verbose ''statusEnd'' (''Evaluating: '' @ description a))
       (sort_key fst
          (List.map_filter (\<lambda>(a, r). map_option (\<lambda>t. (t, a)) (resolve_time r)) (zip as rs)))"

text \<open>\<^verbatim>\<open>artifacts => Promise.all(config.audits.map(...))\<close>\<close>

definition audits_step :: "audit_descriptor list \<Rightarrow> jsval \<Rightarrow> audit_result list chain" where
  "audits_step as = (\<lambda>artifacts.
     case map_audits 0 as artifacts of
       (tr, rs, Some e) \<Rightarrow> (tr @ statusEnd_events as rs, Rejected e)
     | (tr, rs, None) \<Rightarrow> (tr @ statusEnd_events as rs, promise_all rs))"

text \<open>
  \<^verbatim>\<open>auditResults => Promise.all([auditResults, Aggregator.aggregate(config.aggregations,
  auditResults)])\<close>
\<close>

definition aggregate_step ::
  "env \<Rightarrow> jsval \<Rightarrow> audit_result list \<Rightarrow> (audit_result list \<times> jsval) chain"
where
  "aggregate_step e spec = (\<lambda>auditResults.
     ([Aggregate spec auditResults],
      case adopt (Aggregator_aggregate e spec auditResults) of
        Fulfilled aggs \<Rightarrow> Fulfilled (auditResults, aggs)
      | Rejected err \<Rightarrow> Rejected err
      | Pending \<Rightarrow> Pending))"

text \<open>
  \<^verbatim>\<open>audits.reduce((formatted, audit) => { formatted[audit.name] = audit; return
  formatted; }, {})\<close>. The assignment adds or replaces the own property of that name,
  but for the name \<^verbatim>\<open>__proto__\<close>: there it runs the setter \<^verbatim>\<open>Object.prototype\<close> has for
  that name, which makes the audit result the prototype of the object and adds no own
  property. Every other name \<^verbatim>\<open>Object.prototype\<close> has is a writable data property, which
  an assignment shadows by an own property.
\<close>

definition set_property :: "formatted \<Rightarrow> audit_result \<Rightarrow> formatted" where
  "set_property formatted a =
     (if name a = ''__proto__'' then formatted\<lparr>prototype := Some a\<rparr>
      else formatted\<lparr>own := (own formatted)(name a \<mapsto> a)\<rparr>)"

definition formattedAudits :: "audit_result list \<Rightarrow> formatted" where
  "formattedAudits as = foldl set_property \<lparr>own = Map.empty, prototype = None\<rparr> as"

text \<open>The last callback: it reads \<^verbatim>\<open>opts.initialUrl\<close> and \<^verbatim>\<open>opts.url\<close> when it runs.\<close>

definition report_step :: "opts \<Rightarrow> audit_result list \<times> jsval \<Rightarrow> resolved chain" where
  "report_step os = (\<lambda>results.
     ([], Fulfilled (Report
        \<lparr>report_initialUrl = initialUrl os,
         report_url = url os,
         report_audits = formattedAudits (fst results),
         report_aggregations = snd results\<rparr>)))"

text \<open>
  Lines 96 to 120: \<^verbatim>\<open>if (config.aggregations) { run = run.then(...).then(...) } return
  run\<close>. Without aggregations the promise of the audit results is returned as it is.
\<close>

definition finish :: "env \<Rightarrow> opts \<Rightarrow> event list \<Rightarrow> audit_result list chain \<Rightarrow> result" where
  "finish e os warnings run0 =
     (let run1 =
        (case aggregations (config os) of
           Some spec \<Rightarrow> promise_then (promise_then run0 (aggregate_step e spec)) (report_step os)
         | None \<Rightarrow> promise_then run0 (\<lambda>auditResults. ([], Fulfilled (Flat auditResults))))
      in \<lparr>outcome = Returned (snd run1), trace = warnings @ fst run1, opts_after = os\<rparr>)"

subsection \<open>Runner.run\<close>

definition config_error :: error where
  "config_error =
     Error ''The config must provide passes and audits, artifacts and audits, or auditResults''"

definition https_warnings :: "event list" where
  "https_warnings =
     [Warn ''Lighthouse'' ''The URL provided should be on HTTPS'',
      Warn ''Lighthouse''
        ''Performance stats will be skewed redirecting from HTTP to HTTPS.'']"

text \<open>
  Lines 37 to 40, for a protocol that is a string:
  \<^verbatim>\<open>if (!parsedURL.protocol.includes('https') || parsedURL.hostname === 'http://localhost')\<close>
\<close>

definition url_warnings :: "string \<Rightarrow> parsed_url \<Rightarrow> event list" where
  "url_warnings proto parsedURL =
     (if \<not> str_includes proto ''https'' \<or> hostname parsedURL = Some ''http://localhost''
      then https_warnings else [])"

text \<open>
  Lines 54 to 60, on \<^verbatim>\<open>Promise.resolve()\<close>: the gatherer if there are passes and
  audits, the artifacts of the configuration otherwise. Inside the test of line 53 the
  \<^verbatim>\<open>else if\<close> of line 58 holds whenever the test of line 54 fails.
\<close>

definition artifacts_chain :: "env \<Rightarrow> config \<Rightarrow> opts \<Rightarrow> jsval chain" where
  "artifacts_chain e cfg os =
     (let run0 = ([], Fulfilled ()) in
      if passes cfg \<noteq> None \<and> audits cfg \<noteq> None
      then promise_then run0 (gather_step e (the (passes cfg)) os)
      else promise_then run0 (\<lambda>_. ([], Fulfilled (the (artifacts cfg)))))"

text \<open>Lines 64 to 77, for flags that are an object.\<close>

definition save_chain :: "env \<Rightarrow> opts \<Rightarrow> flags \<Rightarrow> jsval chain \<Rightarrow> jsval chain" where
  "save_chain e os fl run1 =
     (let run2 = (if saveArtifacts fl then promise_then run1 (saveArtifacts_step e) else run1);
          run3 = (if saveAssets fl then promise_then run2 (saveAssets_step e os) else run2)
      in run3)"

text \<open>
  The body of \<^verbatim>\<open>run\<close>. Reading \<^verbatim>\<open>includes\<close> of a \<^verbatim>\<open>null\<close> protocol (line 37) and
  reading \<^verbatim>\<open>saveArtifacts\<close> of absent flags (line 64) raise a \<^verbatim>\<open>TypeError\<close> out of the
  call. At line 64 the callback of line 57 is already registered on a resolved promise:
  it is queued and runs once the call has unwound, so its calls are part of the trace.
\<close>

definition run :: "env \<Rightarrow> jsval \<Rightarrow> opts \<Rightarrow> result" where
  "run e drv opts0 =
     (let cfg = config opts0;
          opts1 = opts0\<lparr>initialUrl := Some (url opts0)\<rparr>;
          parsedURL = url_parse e (url opts1);
          opts2 = opts1\<lparr>url := url_format e parsedURL\<rparr>
      in case protocol parsedURL of
           None \<Rightarrow>
             \<lparr>outcome = Thrown (TypeError ''Cannot read property includes of null''),
              trace = [], opts_after = opts2\<rparr>
         | Some proto \<Rightarrow>
            (let warnings = url_warnings proto parsedURL;
                 validPassesAndAudits = (passes cfg \<noteq> None \<and> audits cfg \<noteq> None);
                 validArtifactsAndAudits = (artifacts cfg \<noteq> None \<and> audits cfg \<noteq> None)
             in if validPassesAndAudits \<or> validArtifactsAndAudits then
                  (let opts3 = (if validPassesAndAudits then opts2\<lparr>driver := Some drv\<rparr> else opts2);
                       run1 = artifacts_chain e cfg opts3
                   in case flags opts3 of
                        None \<Rightarrow>
                          \<lparr>outcome =
                             Thrown (TypeError ''Cannot read property saveArtifacts of undefined''),
                           trace = warnings @ fst run1, opts_after = opts3\<rparr>
                      | Some fl \<Rightarrow>
                          finish e opts3 warnings
                            (promise_then (save_chain e opts3 fl run1)
                               (audits_step (the (audits cfg)))))
                else if auditResults cfg \<noteq> None then
                  finish e opts2 warnings
                    (promise_then ([], Fulfilled ()) (\<lambda>_. ([], Fulfilled (the (auditResults cfg)))))
                else \<lparr>outcome = Thrown config_error, trace = warnings, opts_after = opts2\<rparr>))"

subsection \<open>Reading a trace\<close>

fun is_gather :: "event \<Rightarrow> bool" where
  "is_gather (GatherRun p os) = True"
| "is_gather _ = False"

fun is_persist :: "event \<Rightarrow> bool" where
  "is_persist (SaveArtifacts a) = True"
| "is_persist (SaveAssets os a) = True"
| "is_persist _ = False"

fun is_audit :: "event \<Rightarrow> bool" where
  "is_audit (AuditCall i a) = True"
| "is_audit _ = False"

fun is_aggregate :: "event \<Rightarrow> bool" where
  "is_aggregate (Aggregate s rs) = True"
| "is_aggregate _ = False"

fun is_warn :: "event \<Rightarrow> bool" where
  "is_warn (Warn c m) = True"
| "is_warn _ = False"

text \<open>The calls of the gatherer, the savers, the audits and the aggregator; the log is not one.\<close>

definition is_collaborator :: "event \<Rightarrow> bool" where
  "is_collaborator ev = (is_gather ev \<or> is_persist ev \<or> is_audit ev \<or> is_aggregate ev)"

subsection \<open>The three modes of a configuration\<close>

text \<open>
  The shapes the specification names: passes and audits; artifacts and audits, without
  being the first; audit results, without being either.
\<close>

definition modeA :: "config \<Rightarrow> bool" where
  "modeA cfg = (passes cfg \<noteq> None \<and> audits cfg \<noteq> None)"

definition modeB :: "config \<Rightarrow> bool" where
  "modeB cfg = (\<not> modeA cfg \<and> artifacts cfg \<noteq> None \<and> audits cfg \<noteq> None)"

definition modeC :: "config \<Rightarrow> bool" where
  "modeC cfg = (\<not> modeA cfg \<and> \<not> modeB cfg \<and> auditResults cfg \<noteq> None)"

text \<open>The options object as a run leaves it (lines 32, 35 and 55).\<close>

definition opts_seen :: "env \<Rightarrow> jsval \<Rightarrow> opts \<Rightarrow> opts" where
  "opts_seen e drv os =
     (let os2 = os\<lparr>initialUrl := Some (url os), url := url_format e (url_parse e (url os))\<rparr>
      in if protocol (url_parse e (url os)) \<noteq> None \<and> modeA (config os)
         then os2\<lparr>driver := Some drv\<rparr> else os2)"

subsection \<open>Reaching the audits\<close>

text \<open>The value a call ends with, if it ends with one, and the error it fails with.\<close>

fun call_value :: "'a call \<Rightarrow> 'a option" where
  "call_value (Returns r) = resolved_value r"
| "call_value (Throws e) = None"

fun call_error :: "'a call \<Rightarrow> error option" where
  "call_error (Throws e) = Some e"
| "call_error (Returns (Later t (Reject e))) = Some e"
| "call_error (Returns (Later t (Resolve v))) = None"
| "call_error (Returns (Plain v)) = None"
| "call_error (Returns Never) = None"

text \<open>
  A run with audits to make gets as far as the artifacts \<open>a\<close>: the URL check passes, the
  flags are there, and either the gatherer, called for passes and audits, comes back
  with \<open>a\<close>, or the configuration has artifacts and audits and \<open>a\<close> is its artifacts.
\<close>

definition artifacts_for :: "env \<Rightarrow> jsval \<Rightarrow> opts \<Rightarrow> jsval \<Rightarrow> bool" where
  "artifacts_for e drv os a =
     (protocol (url_parse e (url os)) \<noteq> None \<and> flags os \<noteq> None \<and>
      (modeA (config os) \<and>
         adopt (GatherRunner_run e (the (passes (config os))) (opts_seen e drv os)) = Fulfilled a
       \<or> modeB (config os) \<and> artifacts (config os) = Some a))"

text \<open>Neither saver throws when the flags have it called on \<open>a\<close>.\<close>

definition savers_return :: "env \<Rightarrow> jsval \<Rightarrow> opts \<Rightarrow> jsval \<Rightarrow> bool" where
  "savers_return e drv os a =
     (case flags os of
        None \<Rightarrow> True
      | Some fl \<Rightarrow>
          (saveArtifacts fl \<longrightarrow>
             (case assetSaver_saveArtifacts e a of Returns r \<Rightarrow> True | Throws err \<Rightarrow> False))
          \<and> (saveAssets fl \<longrightarrow>
               (case assetSaver_saveAssets e (opts_seen e drv os) a of
                  Returns r \<Rightarrow> True | Throws err \<Rightarrow> False)))"

text \<open>
  Step 5 of the specification, in its words: given the audit results, the run resolves to
  them as they are when the configuration has no aggregation; with one, it resolves to
  the report of the two URLs, the results keyed by name and what the aggregator returned,
  and fails or hangs as the aggregator does.
\<close>

definition final_promise :: "env \<Rightarrow> opts \<Rightarrow> audit_result list \<Rightarrow> resolved promise" where
  "final_promise e os rs =
     (case aggregations (config os) of
        None \<Rightarrow> Fulfilled (Flat rs)
      | Some spec \<Rightarrow>
         (case adopt (Aggregator_aggregate e spec rs) of
            Fulfilled aggs \<Rightarrow> Fulfilled (Report
              \<lparr>report_initialUrl = Some (url os),
               report_url = url_format e (url_parse e (url os)),
               report_audits = formattedAudits rs,
               report_aggregations = aggs\<rparr>)
          | Rejected err \<Rightarrow> Rejected err
          | Pending \<Rightarrow> Pending))"

subsection \<open>Concrete runs\<close>

text \<open>
  A table of \<^verbatim>\<open>url.parse\<close> of Node at the three strings the concrete runs use:
  \<^verbatim>\<open>http://example.com\<close>, \<^verbatim>\<open>https://example.com/\<close>, and \<^verbatim>\<open>example.com\<close>, which has no
  scheme, so that every field but the path is \<^verbatim>\<open>null\<close>. The last row stands for any
  other string as well; the table is read at these three only. \<^verbatim>\<open>url.format\<close> of a
  parsed URL gives its \<^verbatim>\<open>href\<close> back.
\<close>

definition node_url_parse :: "string \<Rightarrow> parsed_url" where
  "node_url_parse s =
     (if s = ''http://example.com'' then
        \<lparr>protocol = Some ''http:'', slashes = Some True, auth = None,
         host = Some ''example.com'', port = None, hostname = Some ''example.com'',
         hash = None, search = None, query = None, pathname = Some ''/'', path = Some ''/'',
         href = ''http://example.com/''\<rparr>
      else if s = ''https://example.com/'' then
        \<lparr>protocol = Some ''https:'', slashes = Some True, auth = None,
         host = Some ''example.com'', port = None, hostname = Some ''example.com'',
         hash = None, search = None, query = None, pathname = Some ''/'', path = Some ''/'',
         href = ''https://example.com/''\<rparr>
      else
        \<lparr>protocol = None, slashes = None, auth = None, host = None, port = None,
         hostname = None, hash = None, search = None, query = None,
         pathname = Some s, path = Some s, href = s\<rparr>)"

text \<open>Collaborators that all succeed: the gatherer and the aggregator by a promise.\<close>

definition node_env :: env where
  "node_env =
     \<lparr>url_parse = node_url_parse, url_format = href,
      GatherRunner_run =
        (\<lambda>ps os. Returns (Later 3 (Resolve (JObj [(''URL'', JStr (url os))])))),
      assetSaver_saveArtifacts = (\<lambda>a. Returns (Plain JNull)),
      assetSaver_saveAssets = (\<lambda>os a. Returns (Plain JNull)),
      Aggregator_aggregate =
        (\<lambda>spec rs. Returns (Later 1 (Resolve (JArr [spec, JNum (int (length rs))]))))\<rparr>"

definition empty_config :: config where
  "empty_config =
     \<lparr>passes = None, audits = None, artifacts = None, auditResults = None,
      aggregations = None\<rparr>"

definition opts_of :: "string \<Rightarrow> config \<Rightarrow> flags option \<Rightarrow> opts" where
  "opts_of u cfg fl = \<lparr>url = u, initialUrl = None, driver = None, config = cfg, flags = fl\<rparr>"

definition no_flags :: flags where
  "no_flags = \<lparr>saveArtifacts = False, saveAssets = False\<rparr>"

text \<open>Two audits: the first answers by a promise that resolves late, the second at once.\<close>

definition two_audits :: "audit_descriptor list" where
  "two_audits =
     [\<lparr>description = ''Has a viewport'',
       audit = (\<lambda>a. Returns (Later 5 (Resolve \<lparr>name = ''viewport'', rawValue = a\<rparr>)))\<rparr>,
      \<lparr>description = ''Uses HTTPS'',
       audit = (\<lambda>a. Returns (Plain \<lparr>name = ''is-on-https'', rawValue = JBool True\<rparr>))\<rparr>]"

text \<open>A configuration with passes and audits, and with artifacts as well.\<close>

definition gather_config :: config where
  "gather_config =
     \<lparr>passes = Some (JArr [JStr ''defaultPass'']), audits = Some two_audits,
      artifacts = Some (JObj [(''URL'', JStr ''stale'')]), auditResults = None,
      aggregations = None\<rparr>"

text \<open>A configuration with audit results only, and an aggregation.\<close>

definition two_results :: "audit_result list" where
  "two_results =
     [\<lparr>name = ''viewport'', rawValue = JBool True\<rparr>,
      \<lparr>name = ''is-on-https'', rawValue = JBool False\<rparr>]"

definition results_config :: config where
  "results_config =
     \<lparr>passes = None, audits = None, artifacts = None, auditResults = Some two_results,
      aggregations = Some (JStr ''Best Practices'')\<rparr>"

text \<open>A configuration with artifacts and audits, with or without an aggregation.\<close>

definition page_artifacts :: jsval where
  "page_artifacts = JObj [(''URL'', JStr ''https://example.com/'')]"

definition audit_config :: "audit_descriptor list \<Rightarrow> jsval option \<Rightarrow> config" where
  "audit_config ads aggs =
     \<lparr>passes = None, audits = Some ads, artifacts = Some page_artifacts, auditResults = None,
      aggregations = aggs\<rparr>"

text \<open>Two audits whose results carry the same name.\<close>

definition same_name_audits :: "audit_descriptor list" where
  "same_name_audits =
     [\<lparr>description = ''Has a viewport'',
       audit = (\<lambda>a. Returns (Plain \<lparr>name = ''viewport'', rawValue = JBool True\<rparr>))\<rparr>,
      \<lparr>description = ''Has a viewport (again)'',
       audit = (\<lambda>a. Returns (Plain \<lparr>name = ''viewport'', rawValue = JBool False\<rparr>))\<rparr>]"

text \<open>An audit that throws, before one that would answer.\<close>

definition throwing_audits :: "audit_descriptor list" where
  "throwing_audits =
     [\<lparr>description = ''Throws'', audit = (\<lambda>a. Throws (Error ''no trace''))\<rparr>,
      \<lparr>description = ''Uses HTTPS'',
       audit = (\<lambda>a. Returns (Plain \<lparr>name = ''is-on-https'', rawValue = JBool True\<rparr>))\<rparr>]"

text \<open>
  Three audits: one answers late, one is rejected earlier than that, one never answers.
\<close>

definition failing_audits :: "audit_descriptor list" where
  "failing_audits =
     [\<lparr>description = ''Has a viewport'',
       audit = (\<lambda>a. Returns (Later 5 (Resolve \<lparr>name = ''viewport'', rawValue = a\<rparr>)))\<rparr>,
      \<lparr>description = ''Fails'',
       audit = (\<lambda>a. Returns (Later 2 (Reject (Error ''no trace''))))\<rparr>,
      \<lparr>description = ''Hangs'', audit = (\<lambda>a. Returns Never)\<rparr>]"

text \<open>Savers whose promise is rejected, or never settles.\<close>

definition save_flags :: flags where
  "save_flags = \<lparr>saveArtifacts = True, saveAssets = True\<rparr>"

definition rejecting_saver_env :: env where
  "rejecting_saver_env =
     node_env\<lparr>assetSaver_saveArtifacts :=
       (\<lambda>a. Returns (Later 1 (Reject (Error ''EACCES: permission denied''))))\<rparr>"

definition hanging_saver_env :: env where
  "hanging_saver_env = node_env\<lparr>assetSaver_saveAssets := (\<lambda>os a. Returns Never)\<rparr>"

definition throwing_saver_env :: env where
  "throwing_saver_env =
     node_env\<lparr>assetSaver_saveArtifacts := (\<lambda>a. Throws (Error ''EACCES: permission denied''))\<rparr>"

section \<open>Properties of a run\<close>

subsection \<open>The run, case by case\<close>

lemma run_no_protocol:
  assumes "protocol (url_parse e (url os)) = None"
  shows "run e drv os =
    \<lparr>outcome = Thrown (TypeError ''Cannot read property includes of null''), trace = [],
     opts_after = opts_seen e drv os\<rparr>"
  using assms by (simp add: run_def opts_seen_def Let_def)

lemma run_no_mode:
  assumes "protocol (url_parse e (url os)) = Some proto"
    and "\<not> modeA (config os)" and "\<not> modeB (config os)" and "\<not> modeC (config os)"
  shows "run e drv os =
    \<lparr>outcome = Thrown config_error, trace = url_warnings proto (url_parse e (url os)),
     opts_after = opts_seen e drv os\<rparr>"
  using assms
  by (cases "passes (config os)"; cases "audits (config os)"; cases "artifacts (config os)";
      simp add: run_def opts_seen_def modeA_def modeB_def modeC_def Let_def)

lemma run_modeC:
  assumes "protocol (url_parse e (url os)) = Some proto"
    and "modeC (config os)" and "auditResults (config os) = Some rs"
  shows "run e drv os =
    finish e (opts_seen e drv os) (url_warnings proto (url_parse e (url os))) ([], Fulfilled rs)"
  using assms
  by (cases "passes (config os)"; cases "audits (config os)"; cases "artifacts (config os)";
      simp add: run_def opts_seen_def modeA_def modeB_def modeC_def Let_def promise_then_def)

lemma run_no_flags:
  assumes "protocol (url_parse e (url os)) = Some proto"
    and "modeA (config os) \<or> modeB (config os)" and "flags os = None"
  shows "run e drv os =
    \<lparr>outcome = Thrown (TypeError ''Cannot read property saveArtifacts of undefined''),
     trace = url_warnings proto (url_parse e (url os))
       @ fst (artifacts_chain e (config os) (opts_seen e drv os)),
     opts_after = opts_seen e drv os\<rparr>"
  using assms
  by (cases "passes (config os)"; cases "audits (config os)"; cases "artifacts (config os)";
      simp add: run_def opts_seen_def modeA_def modeB_def Let_def)

lemma run_audit_modes:
  assumes "protocol (url_parse e (url os)) = Some proto"
    and "modeA (config os) \<or> modeB (config os)" and "flags os = Some fl"
    and "audits (config os) = Some ads"
  shows "run e drv os =
    finish e (opts_seen e drv os) (url_warnings proto (url_parse e (url os)))
      (promise_then
         (save_chain e (opts_seen e drv os) fl
            (artifacts_chain e (config os) (opts_seen e drv os)))
         (audits_step ads))"
  using assms
  by (cases "passes (config os)"; cases "audits (config os)"; cases "artifacts (config os)";
      simp add: run_def opts_seen_def modeA_def modeB_def Let_def)

subsection \<open>The calls of each phase\<close>

lemma fst_promise_then:
  "fst (promise_then p cb) =
     fst p @ (case snd p of Fulfilled v \<Rightarrow> fst (cb v) | Rejected err \<Rightarrow> [] | Pending \<Rightarrow> [])"
  by (cases p; cases "snd p") (auto simp: promise_then_def split: prod.splits)

lemma snd_promise_then:
  "snd (promise_then p cb) =
     (case snd p of Fulfilled v \<Rightarrow> snd (cb v) | Rejected err \<Rightarrow> Rejected err | Pending \<Rightarrow> Pending)"
  by (cases p; cases "snd p") (auto simp: promise_then_def split: prod.splits)

lemma artifacts_chain_gather:
  assumes "passes cfg = Some ps" and "audits cfg = Some ads"
  shows "artifacts_chain e cfg os = ([GatherRun ps os], adopt (GatherRunner_run e ps os))"
  using assms by (simp add: artifacts_chain_def promise_then_def gather_step_def)

lemma artifacts_chain_config:
  assumes "\<not> modeA cfg" and "artifacts cfg = Some a"
  shows "artifacts_chain e cfg os = ([], Fulfilled a)"
  using assms by (auto simp add: artifacts_chain_def promise_then_def modeA_def)

lemma fst_save_chain:
  "fst (save_chain e os fl c) =
     fst c @ (case snd c of
        Fulfilled a \<Rightarrow>
          (if saveArtifacts fl then [SaveArtifacts a] else []) @
          (if saveAssets fl \<and> (saveArtifacts fl \<longrightarrow> (\<forall>err. assetSaver_saveArtifacts e a \<noteq> Throws err))
           then [SaveAssets os a] else [])
      | Rejected err \<Rightarrow> [] | Pending \<Rightarrow> [])"
  by (cases "snd c"; cases "assetSaver_saveArtifacts e (case snd c of Fulfilled a \<Rightarrow> a)")
     (auto simp: save_chain_def Let_def fst_promise_then snd_promise_then
       saveArtifacts_step_def saveAssets_step_def)

lemma snd_save_chain:
  "snd (save_chain e os fl c) =
     (case snd c of
        Fulfilled a \<Rightarrow>
          (case (if saveArtifacts fl then assetSaver_saveArtifacts e a else Returns Never) of
             Throws err \<Rightarrow> Rejected err
           | Returns _ \<Rightarrow>
              (case (if saveAssets fl then assetSaver_saveAssets e os a else Returns Never) of
                 Throws err \<Rightarrow> Rejected err
               | Returns _ \<Rightarrow> Fulfilled a))
      | Rejected err \<Rightarrow> Rejected err | Pending \<Rightarrow> Pending)"
  by (cases "snd c")
     (auto simp: save_chain_def Let_def fst_promise_then snd_promise_then
       saveArtifacts_step_def saveAssets_step_def split: call.splits)

lemma filter_statusEnd_events:
  assumes "\<And>c m. \<not> P (Verbose c m)"
  shows "filter P (statusEnd_events as rs) = []"
  using assms by (auto simp: statusEnd_events_def filter_empty_conv)

lemma filter_map_audits:
  assumes "\<And>c m. \<not> P (Log c m)" and "\<And>j x. \<not> P (AuditCall j x)"
  shows "filter P (fst (map_audits i as a)) = []"
  using assms
  by (induction as arbitrary: i) (simp_all add: Let_def case_prod_beta split: call.splits)

lemma filter_audits_step:
  assumes "\<And>c m. \<not> P (Log c m)" and "\<And>j x. \<not> P (AuditCall j x)" and "\<And>c m. \<not> P (Verbose c m)"
  shows "filter P (fst (audits_step as a)) = []"
proof -
  obtain tr rs err where m: "map_audits 0 as a = (tr, rs, err)"
    by (cases "map_audits 0 as a") auto
  have "filter P tr = []"
    using filter_map_audits [of P 0 as a] assms m by simp
  then show ?thesis
    using m assms by (cases err) (simp_all add: audits_step_def filter_statusEnd_events)
qed

lemma trace_finish:
  "trace (finish e os w c) =
     w @ fst c @ (case snd c of
        Fulfilled rs \<Rightarrow> (case aggregations (config os) of Some spec \<Rightarrow> [Aggregate spec rs] | None \<Rightarrow> [])
      | Rejected err \<Rightarrow> [] | Pending \<Rightarrow> [])"
  by (cases "snd c"; cases "aggregations (config os)")
     (auto simp: finish_def Let_def fst_promise_then snd_promise_then aggregate_step_def
        report_step_def split: promise.splits)

lemma outcome_finish:
  "outcome (finish e os w c) = Returned
     (case snd c of
        Fulfilled rs \<Rightarrow>
          (case aggregations (config os) of
             None \<Rightarrow> Fulfilled (Flat rs)
           | Some spec \<Rightarrow>
              (case adopt (Aggregator_aggregate e spec rs) of
                 Fulfilled aggs \<Rightarrow> Fulfilled (Report
                   \<lparr>report_initialUrl = initialUrl os, report_url = url os,
                    report_audits = formattedAudits rs, report_aggregations = aggs\<rparr>)
               | Rejected err \<Rightarrow> Rejected err
               | Pending \<Rightarrow> Pending))
      | Rejected err \<Rightarrow> Rejected err
      | Pending \<Rightarrow> Pending)"
  by (cases "snd c"; cases "aggregations (config os)")
     (auto simp: finish_def Let_def fst_promise_then snd_promise_then aggregate_step_def
        report_step_def split: promise.splits)

lemma opts_after_finish: "opts_after (finish e os w c) = os"
  by (simp add: finish_def Let_def)

lemma filter_url_warnings:
  assumes "\<And>c m. \<not> P (Warn c m)"
  shows "filter P (url_warnings proto p) = []"
  using assms by (simp add: url_warnings_def https_warnings_def)

lemma filter_promise_then:
  assumes "\<And>v. filter P (fst (cb v)) = []"
  shows "filter P (fst (promise_then p cb)) = filter P (fst p)"
  using assms by (cases "snd p") (simp_all add: fst_promise_then)

lemma filter_save_chain:
  assumes "\<And>a. \<not> P (SaveArtifacts a)" and "\<And>os a. \<not> P (SaveAssets os a)"
  shows "filter P (fst (save_chain e os fl c)) = filter P (fst c)"
  using assms
  by (simp add: save_chain_def Let_def filter_promise_then saveArtifacts_step_def
      saveAssets_step_def)

lemma filter_trace_finish:
  assumes "\<And>s rs. \<not> P (Aggregate s rs)"
  shows "filter P (trace (finish e os w c)) = filter P w @ filter P (fst c)"
  using assms
  by (cases "snd c"; cases "aggregations (config os)") (simp_all add: trace_finish)

lemma filter_artifacts_chain:
  assumes "\<And>ps os. \<not> P (GatherRun ps os)"
  shows "filter P (fst (artifacts_chain e cfg os)) = []"
  using assms
  by (simp add: artifacts_chain_def Let_def promise_then_def gather_step_def)

lemma run_cases [case_names no_protocol no_mode modeC no_flags audit_modes]:
  obtains
    (no_protocol) "protocol (url_parse e (url os)) = None"
  | (no_mode) proto where "protocol (url_parse e (url os)) = Some proto"
      and "\<not> modeA (config os)" and "\<not> modeB (config os)" and "\<not> modeC (config os)"
  | (modeC) proto rs where "protocol (url_parse e (url os)) = Some proto"
      and "modeC (config os)" and "auditResults (config os) = Some rs"
  | (no_flags) proto where "protocol (url_parse e (url os)) = Some proto"
      and "modeA (config os) \<or> modeB (config os)" and "flags os = None"
  | (audit_modes) proto fl ads where "protocol (url_parse e (url os)) = Some proto"
      and "modeA (config os) \<or> modeB (config os)" and "flags os = Some fl"
      and "audits (config os) = Some ads"
proof (cases "protocol (url_parse e (url os))")
  case None
  then show ?thesis by (rule no_protocol)
next
  case (Some proto)
  show ?thesis
  proof (cases "modeA (config os) \<or> modeB (config os)")
    case True
    then obtain ads where ads: "audits (config os) = Some ads"
      by (auto simp: modeA_def modeB_def)
    show ?thesis
    proof (cases "flags os")
      case None
      then show ?thesis using Some True by (auto intro: no_flags)
    next
      case fl: (Some fl)
      then show ?thesis using Some True ads by (auto intro: audit_modes)
    qed
  next
    case False
    show ?thesis
    proof (cases "modeC (config os)")
      case True
      then obtain rs where "auditResults (config os) = Some rs" by (auto simp: modeC_def)
      then show ?thesis using Some True by (auto intro: modeC)
    next
      case nc: False
      then show ?thesis using Some False by (auto intro: no_mode)
    qed
  qed
qed

lemma opts_after_run: "opts_after (run e drv os) = opts_seen e drv os"
  by (cases rule: run_cases [of e os])
     (simp_all add: run_no_protocol run_no_mode run_modeC run_no_flags run_audit_modes
        opts_after_finish)

lemma modeC_not_AB: "modeC cfg \<Longrightarrow> \<not> modeA cfg \<and> \<not> modeB cfg"
  by (simp add: modeC_def)

lemma initialUrl_opts_seen: "initialUrl (opts_seen e drv os) = Some (url os)"
  by (simp add: opts_seen_def Let_def)

lemma url_opts_seen: "url (opts_seen e drv os) = url_format e (url_parse e (url os))"
  by (simp add: opts_seen_def Let_def)

lemma config_opts_seen: "config (opts_seen e drv os) = config os"
  by (simp add: opts_seen_def Let_def)

lemma flags_opts_seen: "flags (opts_seen e drv os) = flags os"
  by (simp add: opts_seen_def Let_def)

lemma driver_opts_seen:
  "driver (opts_seen e drv os) =
     (if protocol (url_parse e (url os)) \<noteq> None \<and> modeA (config os) then Some drv else driver os)"
  by (simp add: opts_seen_def Let_def)

lemmas opts_seen_fields = initialUrl_opts_seen url_opts_seen config_opts_seen flags_opts_seen

lemma modeC_calls:
  assumes "modeC (config os)" and "\<And>s rs. \<not> P (Aggregate s rs)" and "\<And>c m. \<not> P (Warn c m)"
  shows "filter P (trace (run e drv os)) = []"
proof (cases rule: run_cases [of e os])
  case no_protocol
  then show ?thesis by (simp add: run_no_protocol)
next
  case (modeC proto rs)
  then show ?thesis using assms by (simp add: run_modeC filter_trace_finish filter_url_warnings)
qed (use assms modeC_not_AB in auto)

lemma modeC_run:
  assumes "modeC (config os)" and "protocol (url_parse e (url os)) = Some proto"
  shows "run e drv os =
    finish e (opts_seen e drv os) (url_warnings proto (url_parse e (url os)))
      ([], Fulfilled (the (auditResults (config os))))"
proof -
  obtain rs where "auditResults (config os) = Some rs" using assms by (auto simp: modeC_def)
  then show ?thesis using assms by (simp add: run_modeC)
qed

lemma filter_warn_url_warnings: "filter is_warn (url_warnings proto p) = url_warnings proto p"
  by (simp add: url_warnings_def https_warnings_def)

lemma warn_calls:
  assumes "protocol (url_parse e (url os)) = Some proto"
  shows "filter is_warn (trace (run e drv os)) = url_warnings proto (url_parse e (url os))"
proof (cases rule: run_cases [of e os])
  case no_protocol
  then show ?thesis using assms by simp
next
  case (no_mode proto)
  then show ?thesis using assms by (simp add: run_no_mode filter_warn_url_warnings)
next
  case (modeC proto rs)
  then show ?thesis
    using assms by (simp add: run_modeC filter_trace_finish filter_warn_url_warnings)
next
  case (no_flags proto)
  then show ?thesis
    using assms by (simp add: run_no_flags filter_artifacts_chain filter_warn_url_warnings)
next
  case (audit_modes proto fl ads)
  then show ?thesis
    using assms
    by (simp add: run_audit_modes filter_trace_finish filter_promise_then filter_save_chain
        filter_artifacts_chain filter_audits_step filter_warn_url_warnings)
qed

lemma thrown_cases:
  assumes "outcome (run e drv os) = Thrown err"
  shows "protocol (url_parse e (url os)) = None
       \<and> err = TypeError ''Cannot read property includes of null''
    \<or> \<not> modeA (config os) \<and> \<not> modeB (config os) \<and> \<not> modeC (config os) \<and> err = config_error
    \<or> (modeA (config os) \<or> modeB (config os)) \<and> flags os = None
       \<and> err = TypeError ''Cannot read property saveArtifacts of undefined''"
  using assms
  by (cases rule: run_cases [of e os])
     (auto simp add: run_no_protocol run_no_mode run_modeC run_no_flags run_audit_modes
        outcome_finish)

lemma report_urls:
  assumes "outcome (run e drv os) = Returned (Fulfilled (Report rep))"
  shows "report_initialUrl rep = Some (url os)
    \<and> report_url rep = url_format e (url_parse e (url os))"
proof -
  have *: "report_initialUrl rep = initialUrl os' \<and> report_url rep = url os'"
    if "outcome (finish e os' w c) = Returned (Fulfilled (Report rep))" for os' w c
    using that by (auto simp: outcome_finish split: promise.splits option.splits)
  show ?thesis
    using assms
    by (cases rule: run_cases [of e os])
       (auto simp add: run_no_protocol run_no_mode run_modeC run_no_flags run_audit_modes
          opts_seen_fields dest!: *)
qed

subsection \<open>The audits\<close>

lemma first_rejection_None:
  "first_rejection rs = None \<longleftrightarrow> (\<forall>t err. Later t (Reject err) \<notin> set rs)"
proof (induction rs rule: first_rejection.induct)
  case (2 t e rs)
  then show ?case by (auto split: option.splits)
qed auto

lemma first_rejection_Some:
  "first_rejection rs = Some (t, err) \<Longrightarrow> Later t (Reject err) \<in> set rs"
proof (induction rs arbitrary: t err rule: first_rejection.induct)
  case (2 t' e rs)
  then show ?case by (auto split: option.splits if_splits)
qed auto

lemma all_values_map:
  "all_values rs = Some vs \<longleftrightarrow> map resolved_value rs = map Some vs"
proof (induction rs arbitrary: vs)
  case Nil
  then show ?case by auto
next
  case (Cons r rs)
  show ?case
  proof (cases vs)
    case Nil
    then show ?thesis by (simp split: option.splits)
  next
    case (Cons v vs')
    then show ?thesis
      using Cons.IH [of vs'] by (cases "all_values rs") (auto split: option.splits)
  qed
qed

lemma resolved_value_not_rejected:
  "resolved_value r = Some v \<Longrightarrow> r \<noteq> Later t (Reject err)"
  by (cases r) auto

lemma promise_all_values:
  assumes "map resolved_value rs = map Some vs"
  shows "promise_all rs = Fulfilled vs"
proof -
  have "first_rejection rs = None"
    unfolding first_rejection_None
  proof (intro allI notI)
    fix t err
    assume "Later t (Reject err) \<in> set rs"
    then have "resolved_value (Later t (Reject err)) \<in> set (map resolved_value rs)"
      by (metis image_eqI set_map)
    then show False using assms by auto
  qed
  moreover have "all_values rs = Some vs" using assms by (simp add: all_values_map)
  ultimately show ?thesis by (simp add: promise_all_def)
qed

lemma promise_all_rejected:
  assumes "Later t (Reject err) \<in> set rs"
  shows "\<exists>t' err'. Later t' (Reject err') \<in> set rs \<and> promise_all rs = Rejected err'"
proof -
  have "first_rejection rs \<noteq> None" using assms by (auto simp: first_rejection_None)
  then obtain t' err' where f: "first_rejection rs = Some (t', err')" by auto
  then have "Later t' (Reject err') \<in> set rs" by (rule first_rejection_Some)
  then show ?thesis using f by (auto simp: promise_all_def)
qed

text \<open>What the map over the audits yields, by what the audits do.\<close>

lemma map_audits_returns:
  assumes "map (\<lambda>d. audit d a) ads = map Returns rs"
  shows "snd (map_audits i ads a) = (rs, None)
    \<and> filter is_audit (fst (map_audits i ads a)) = map (\<lambda>j. AuditCall j a) [i..<i + length ads]"
  using assms
proof (induction ads arbitrary: i rs)
  case Nil
  then show ?case by simp
next
  case (Cons d ads)
  then obtain r rs' where rs: "rs = r # rs'" and d: "audit d a = Returns r"
    and rest: "map (\<lambda>d. audit d a) ads = map Returns rs'"
    by (cases rs) auto
  have ih: "snd (map_audits (Suc i) ads a) = (rs', None)"
    "filter is_audit (fst (map_audits (Suc i) ads a)) = map (\<lambda>j. AuditCall j a) [Suc i..<Suc i + length ads]"
    using Cons.IH [OF rest, of "Suc i"] by simp_all
  have "[i..<i + length (d # ads)] = i # [Suc i..<Suc i + length ads]"
    by (subst upt_rec) simp
  then show ?case
    using ih d rs by (simp add: Let_def case_prod_beta)
qed

lemma map_audits_error:
  assumes "snd (snd (map_audits i ads a)) = Some err"
  shows "\<exists>d\<in>set ads. audit d a = Throws err"
  using assms
proof (induction ads arbitrary: i)
  case Nil
  then show ?case by simp
next
  case (Cons d ads)
  then show ?case
    by (cases "audit d a") (auto simp: Let_def case_prod_beta)
qed

lemma map_audits_no_error:
  assumes "snd (snd (map_audits i ads a)) = None"
  shows "map (\<lambda>d. audit d a) ads = map Returns (fst (snd (map_audits i ads a)))"
  using assms
proof (induction ads arbitrary: i)
  case Nil
  then show ?case by simp
next
  case (Cons d ads)
  then show ?case
    by (cases "audit d a") (auto simp: Let_def case_prod_beta)
qed

lemma map_audits_argument:
  assumes "AuditCall j x \<in> set (fst (map_audits i ads a))"
  shows "x = a"
  using assms
proof (induction ads arbitrary: i)
  case Nil
  then show ?case by simp
next
  case (Cons d ads)
  then show ?case
    by (cases "audit d a") (auto simp: Let_def case_prod_beta)
qed

lemma snd_audits_step:
  "snd (audits_step ads a) =
     (case snd (snd (map_audits 0 ads a)) of
        Some err \<Rightarrow> Rejected err
      | None \<Rightarrow> promise_all (fst (snd (map_audits 0 ads a))))"
  by (cases "map_audits 0 ads a"; cases "snd (snd (map_audits 0 ads a))")
     (auto simp: audits_step_def)

lemma filter_audit_audits_step:
  "filter is_audit (fst (audits_step ads a)) = filter is_audit (fst (map_audits 0 ads a))"
  by (cases "map_audits 0 ads a"; cases "snd (snd (map_audits 0 ads a))")
     (auto simp: audits_step_def filter_statusEnd_events)

lemma audits_step_argument:
  assumes "AuditCall j x \<in> set (fst (audits_step ads a))"
  shows "x = a"
proof -
  have "AuditCall j x \<in> set (filter is_audit (fst (audits_step ads a)))"
    using assms by simp
  then have "AuditCall j x \<in> set (fst (map_audits 0 ads a))"
    by (simp add: filter_audit_audits_step)
  then show ?thesis by (rule map_audits_argument)
qed

lemma audits_step_called:
  assumes "map (\<lambda>d. audit d a) ads = map Returns rs"
  shows "filter is_audit (fst (audits_step ads a)) = map (\<lambda>j. AuditCall j a) [0..<length ads]"
    and "snd (audits_step ads a) = promise_all rs"
  using map_audits_returns [OF assms, of 0]
  by (simp_all add: filter_audit_audits_step snd_audits_step)

lemma call_value_returns:
  assumes "map (\<lambda>d. call_value (audit d a)) ads = map Some vs"
  shows "\<exists>rs. map (\<lambda>d. audit d a) ads = map Returns rs \<and> map resolved_value rs = map Some vs"
  using assms
proof (induction ads arbitrary: vs)
  case Nil
  then show ?case by simp
next
  case (Cons d ads)
  then obtain v vs' where vs: "vs = v # vs'" and d: "call_value (audit d a) = Some v"
    and rest: "map (\<lambda>d. call_value (audit d a)) ads = map Some vs'"
    by (cases vs) auto
  obtain r where r: "audit d a = Returns r" "resolved_value r = Some v"
    using d by (cases "audit d a") auto
  obtain rs' where "map (\<lambda>d. audit d a) ads = map Returns rs'" "map resolved_value rs' = map Some vs'"
    using Cons.IH [OF rest] by blast
  then have "map (\<lambda>d. audit d a) (d # ads) = map Returns (r # rs')
    \<and> map resolved_value (r # rs') = map Some vs"
    using r vs by simp
  then show ?case by blast
qed

lemma audits_step_values:
  assumes "map (\<lambda>d. call_value (audit d a)) ads = map Some vs"
  shows "filter is_audit (fst (audits_step ads a)) = map (\<lambda>j. AuditCall j a) [0..<length ads]"
    and "snd (audits_step ads a) = Fulfilled vs"
proof -
  obtain rs where rs: "map (\<lambda>d. audit d a) ads = map Returns rs"
    and vs: "map resolved_value rs = map Some vs"
    using call_value_returns [OF assms] by blast
  show "filter is_audit (fst (audits_step ads a)) = map (\<lambda>j. AuditCall j a) [0..<length ads]"
    using rs by (rule audits_step_called)
  show "snd (audits_step ads a) = Fulfilled vs"
    using audits_step_called(2) [OF rs] promise_all_values [OF vs] by simp
qed

lemma audits_step_failure:
  assumes "d \<in> set ads" and "call_error (audit d a) \<noteq> None"
  shows "\<exists>d'\<in>set ads. \<exists>err. call_error (audit d' a) = Some err
    \<and> snd (audits_step ads a) = Rejected err"
proof (cases "snd (snd (map_audits 0 ads a))")
  case (Some err)
  then obtain d' where "d' \<in> set ads" "audit d' a = Throws err"
    using map_audits_error by blast
  then show ?thesis
    using Some by (intro bexI [of _ d'] exI [of _ err]) (simp_all add: snd_audits_step)
next
  case None
  define rs where "rs = fst (snd (map_audits 0 ads a))"
  have m: "map (\<lambda>d. audit d a) ads = map Returns rs"
    using None by (simp add: rs_def map_audits_no_error)
  then have "audit d a \<in> Returns ` set rs"
    using assms(1) by (metis image_eqI set_map)
  then obtain r where r: "r \<in> set rs" "audit d a = Returns r" by auto
  then obtain t err where "r = Later t (Reject err)"
    using assms(2) by (cases r rule: resolved_value.cases) auto
  then obtain t' err' where rej: "Later t' (Reject err') \<in> set rs" "promise_all rs = Rejected err'"
    using promise_all_rejected r(1) by blast
  then have "Returns (Later t' (Reject err')) \<in> set (map (\<lambda>d. audit d a) ads)"
    using m by simp
  then obtain d' where "d' \<in> set ads" "audit d' a = Returns (Later t' (Reject err'))" by auto
  then show ?thesis
    using None rej(2)
    by (intro bexI [of _ d'] exI [of _ err']) (simp_all add: snd_audits_step rs_def)
qed

subsection \<open>From the artifacts to the outcome\<close>

lemma promise_then_Fulfilled: "promise_then (tr, Fulfilled v) cb = (tr @ fst (cb v), snd (cb v))"
  by (simp add: promise_then_def case_prod_beta)

lemma artifacts_phase:
  assumes "artifacts_for e drv os a"
  obtains proto fl ads g where "protocol (url_parse e (url os)) = Some proto"
    and "flags os = Some fl" and "audits (config os) = Some ads"
    and "run e drv os =
      finish e (opts_seen e drv os) (url_warnings proto (url_parse e (url os)))
        (promise_then (save_chain e (opts_seen e drv os) fl (g, Fulfilled a)) (audits_step ads))"
    and "filter is_persist g = []" and "filter is_audit g = []" and "filter is_aggregate g = []"
proof -
  obtain proto fl where p: "protocol (url_parse e (url os)) = Some proto"
    and f: "flags os = Some fl"
    using assms by (auto simp: artifacts_for_def)
  have m: "modeA (config os) \<or> modeB (config os)"
    using assms by (auto simp: artifacts_for_def)
  then obtain ads where ads: "audits (config os) = Some ads"
    by (auto simp: modeA_def modeB_def)
  have "\<exists>g. artifacts_chain e (config os) (opts_seen e drv os) = (g, Fulfilled a)
    \<and> filter is_persist g = [] \<and> filter is_audit g = [] \<and> filter is_aggregate g = []"
  proof (cases "modeA (config os)")
    case True
    then obtain ps where "passes (config os) = Some ps" by (auto simp: modeA_def)
    moreover have "\<not> modeB (config os)" using True by (simp add: modeB_def)
    ultimately show ?thesis
      using assms True ads by (simp add: artifacts_for_def artifacts_chain_gather)
  next
    case False
    then show ?thesis
      using assms by (simp add: artifacts_for_def artifacts_chain_config)
  qed
  then obtain g where "artifacts_chain e (config os) (opts_seen e drv os) = (g, Fulfilled a)"
    and "filter is_persist g = []" and "filter is_audit g = []" and "filter is_aggregate g = []"
    by blast
  then show ?thesis
    using that [of proto fl ads g] p f ads m by (simp add: run_audit_modes)
qed

lemma save_chain_returns:
  assumes "savers_return e drv os a" and "flags os = Some fl"
  shows "snd (save_chain e (opts_seen e drv os) fl (g, Fulfilled a)) = Fulfilled a"
  using assms
  by (auto simp: savers_return_def snd_save_chain split: call.splits)

lemma audit_phase:
  assumes "artifacts_for e drv os a" and "savers_return e drv os a"
  obtains proto fl ads tr where "protocol (url_parse e (url os)) = Some proto"
    and "flags os = Some fl" and "audits (config os) = Some ads"
    and "run e drv os =
      finish e (opts_seen e drv os) (url_warnings proto (url_parse e (url os)))
        (tr @ fst (audits_step ads a), snd (audits_step ads a))"
    and "filter is_audit tr = []" and "filter is_aggregate tr = []"
proof -
  obtain proto fl ads g where p: "protocol (url_parse e (url os)) = Some proto"
    and f: "flags os = Some fl" and ads: "audits (config os) = Some ads"
    and r: "run e drv os =
      finish e (opts_seen e drv os) (url_warnings proto (url_parse e (url os)))
        (promise_then (save_chain e (opts_seen e drv os) fl (g, Fulfilled a)) (audits_step ads))"
    and g: "filter is_audit g = []" "filter is_aggregate g = []"
    using assms(1) by (rule artifacts_phase)
  define c where "c = save_chain e (opts_seen e drv os) fl (g, Fulfilled a)"
  have s: "snd c = Fulfilled a"
    using assms(2) f by (simp add: c_def save_chain_returns)
  have "filter is_audit (fst c) = []" "filter is_aggregate (fst c) = []"
    using g by (simp_all add: c_def filter_save_chain)
  moreover have "promise_then c (audits_step ads) = (fst c @ fst (audits_step ads a), snd (audits_step ads a))"
    using s promise_then_Fulfilled [of "fst c" a "audits_step ads"] by (cases c) simp
  ultimately show ?thesis
    using that [of proto fl ads "fst c"] p f ads r by (simp add: c_def)
qed

lemma final_promise_finish:
  "outcome (finish e (opts_seen e drv os) w (tr, Fulfilled rs)) = Returned (final_promise e os rs)"
  by (simp add: outcome_finish final_promise_def opts_seen_fields
      cong: option.case_cong promise.case_cong)

lemma audit_phase_outcome:
  assumes "artifacts_for e drv os a" and "savers_return e drv os a"
    and "audits (config os) = Some ads"
  shows "outcome (run e drv os) = Returned
     (case snd (audits_step ads a) of
        Fulfilled rs \<Rightarrow> final_promise e os rs
      | Rejected err \<Rightarrow> Rejected err
      | Pending \<Rightarrow> Pending)"
    and "filter is_audit (trace (run e drv os)) = filter is_audit (fst (audits_step ads a))"
    and "filter is_aggregate (trace (run e drv os)) =
     (case snd (audits_step ads a) of
        Fulfilled rs \<Rightarrow>
          (case aggregations (config os) of Some spec \<Rightarrow> [Aggregate spec rs] | None \<Rightarrow> [])
      | Rejected err \<Rightarrow> []
      | Pending \<Rightarrow> [])"
proof -
  obtain proto fl ads' tr where ads': "audits (config os) = Some ads'"
    and r: "run e drv os =
      finish e (opts_seen e drv os) (url_warnings proto (url_parse e (url os)))
        (tr @ fst (audits_step ads' a), snd (audits_step ads' a))"
    and tr: "filter is_audit tr = []" "filter is_aggregate tr = []"
    using assms(1,2) by (rule audit_phase)
  have [simp]: "ads' = ads" using ads' assms(3) by simp
  show "outcome (run e drv os) = Returned
     (case snd (audits_step ads a) of
        Fulfilled rs \<Rightarrow> final_promise e os rs
      | Rejected err \<Rightarrow> Rejected err
      | Pending \<Rightarrow> Pending)"
    using final_promise_finish [of e drv os]
    by (cases "snd (audits_step ads a)") (simp_all add: r outcome_finish)
  show "filter is_audit (trace (run e drv os)) = filter is_audit (fst (audits_step ads a))"
    using tr by (simp add: r filter_trace_finish filter_url_warnings)
  show "filter is_aggregate (trace (run e drv os)) =
     (case snd (audits_step ads a) of
        Fulfilled rs \<Rightarrow>
          (case aggregations (config os) of Some spec \<Rightarrow> [Aggregate spec rs] | None \<Rightarrow> [])
      | Rejected err \<Rightarrow> []
      | Pending \<Rightarrow> [])"
    using tr
    by (cases "snd (audits_step ads a)"; cases "aggregations (config os)")
       (simp_all add: r trace_finish filter_url_warnings filter_audits_step opts_seen_fields)
qed

subsection \<open>The mapping of the report\<close>

lemma own_foldl_set_property:
  "own (foldl set_property m vs) k =
     (if k = ''__proto__'' then own m k
      else case find (\<lambda>v. name v = k) (rev vs) of Some v \<Rightarrow> Some v | None \<Rightarrow> own m k)"
  by (induction vs rule: rev_induct) (auto simp: set_property_def)

lemma prototype_foldl_set_property:
  "prototype (foldl set_property m vs) =
     (case find (\<lambda>v. name v = ''__proto__'') (rev vs) of
        Some v \<Rightarrow> Some v | None \<Rightarrow> prototype m)"
  by (induction vs rule: rev_induct) (auto simp: set_property_def)

lemma formattedAudits_find:
  "own (formattedAudits vs) k =
     (if k = ''__proto__'' then None else find (\<lambda>v. name v = k) (rev vs))"
  by (simp add: formattedAudits_def own_foldl_set_property split: option.splits)

lemma formattedAudits_prototype:
  "prototype (formattedAudits vs) = find (\<lambda>v. name v = ''__proto__'') (rev vs)"
  by (simp add: formattedAudits_def prototype_foldl_set_property split: option.splits)

lemma dom_formattedAudits: "dom (own (formattedAudits vs)) = name ` set vs - {''__proto__''}"
proof -
  have "dom (own (foldl set_property m vs)) = dom (own m) \<union> (name ` set vs - {''__proto__''})"
    for m
    by (induction vs arbitrary: m) (auto simp: set_property_def)
  then show ?thesis by (simp add: formattedAudits_def)
qed

lemma card_formattedAudits_le: "card (dom (own (formattedAudits vs))) \<le> length vs"
proof -
  have "card (name ` set vs - {''__proto__''}) \<le> card (name ` set vs)"
    by (simp add: card_mono)
  also have "\<dots> \<le> length vs"
    by (metis card_length length_map list.set_map)
  finally show ?thesis by (simp add: dom_formattedAudits)
qed

lemma card_formattedAudits_distinct:
  assumes "distinct (map name vs)" and "''__proto__'' \<notin> name ` set vs"
  shows "card (dom (own (formattedAudits vs))) = length vs"
proof -
  have "dom (own (formattedAudits vs)) = set (map name vs)"
    using assms(2) by (simp add: dom_formattedAudits)
  then show ?thesis using assms(1) by (metis distinct_card length_map)
qed

text \<open>
  Of two results named \<^verbatim>\<open>__proto__\<close> and \<^verbatim>\<open>viewport\<close>, the second is the one entry of the
  mapping and the first its prototype.
\<close>

lemma formattedAudits_proto_example:
  "dom (own (formattedAudits
      [\<lparr>name = ''__proto__'', rawValue = JBool True\<rparr>,
       \<lparr>name = ''viewport'', rawValue = JBool False\<rparr>])) = {''viewport''}
   \<and> prototype (formattedAudits
      [\<lparr>name = ''__proto__'', rawValue = JBool True\<rparr>,
       \<lparr>name = ''viewport'', rawValue = JBool False\<rparr>])
     = Some \<lparr>name = ''__proto__'', rawValue = JBool True\<rparr>"
  by (simp add: formattedAudits_def set_property_def)

text \<open>
  Of an audit whose promise settles at tick 0 and a later audit that returns a plain
  value, the end of the second is logged first.
\<close>

lemma statusEnd_plain_first_example:
  "statusEnd_events
     [\<lparr>description = ''first'', audit = f\<rparr>, \<lparr>description = ''second'', audit = g\<rparr>]
     [Later 0 (Resolve v), Plain w]
   = [Verbose ''statusEnd'' ''Evaluating: second'', Verbose ''statusEnd'' ''Evaluating: first'']"
  by (simp add: statusEnd_events_def List.map_filter_def)

lemma no_throw_returns:
  assumes "\<forall>d\<in>set ads. \<forall>err. audit d a \<noteq> Throws err"
  shows "\<exists>rs. map (\<lambda>d. audit d a) ads = map Returns rs"
  using assms
proof (induction ads)
  case Nil
  then show ?case by simp
next
  case (Cons d ads)
  then obtain rs where "map (\<lambda>d. audit d a) ads = map Returns rs" by auto
  moreover obtain r where "audit d a = Returns r"
    using Cons.prems by (cases "audit d a") auto
  ultimately have "map (\<lambda>d. audit d a) (d # ads) = map Returns (r # rs)" by simp
  then show ?case by blast
qed

lemma finish_shape:
  assumes "outcome (finish e os' w c) = Returned (Fulfilled v)"
    and "filter is_aggregate w = []" and "filter is_aggregate (fst c) = []"
  shows "case aggregations (config os') of
      None \<Rightarrow> \<exists>rs. v = Flat rs
    | Some spec \<Rightarrow>
        \<exists>rep rs. v = Report rep
          \<and> filter is_aggregate (trace (finish e os' w c)) = [Aggregate spec rs]
          \<and> adopt (Aggregator_aggregate e spec rs) = Fulfilled (report_aggregations rep)"
  using assms
  by (cases "snd c"; cases "aggregations (config os')")
     (auto simp: outcome_finish trace_finish split: promise.splits)

lemma run_shape:
  assumes "outcome (run e drv os) = Returned (Fulfilled v)"
  shows "case aggregations (config os) of
      None \<Rightarrow> \<exists>rs. v = Flat rs
    | Some spec \<Rightarrow>
        \<exists>rep rs. v = Report rep
          \<and> filter is_aggregate (trace (run e drv os)) = [Aggregate spec rs]
          \<and> adopt (Aggregator_aggregate e spec rs) = Fulfilled (report_aggregations rep)"
proof (cases rule: run_cases [of e os])
  case no_protocol
  then show ?thesis using assms by (simp add: run_no_protocol)
next
  case (no_mode proto)
  then show ?thesis using assms by (simp add: run_no_mode)
next
  case (modeC proto rs)
  then show ?thesis
    using assms
      finish_shape [of e "opts_seen e drv os" "url_warnings proto (url_parse e (url os))"
        "([], Fulfilled rs)" v]
    by (simp add: run_modeC filter_url_warnings opts_seen_fields cong: option.case_cong)
next
  case (no_flags proto)
  then show ?thesis using assms by (simp add: run_no_flags)
next
  case (audit_modes proto fl ads)
  have "filter is_aggregate
      (fst (promise_then
         (save_chain e (opts_seen e drv os) fl
            (artifacts_chain e (config os) (opts_seen e drv os)))
         (audits_step ads))) = []"
    by (simp add: filter_promise_then filter_audits_step filter_save_chain filter_artifacts_chain)
  then show ?thesis
    using assms audit_modes
      finish_shape [of e "opts_seen e drv os" "url_warnings proto (url_parse e (url os))"
        "promise_then
         (save_chain e (opts_seen e drv os) fl
            (artifacts_chain e (config os) (opts_seen e drv os)))
         (audits_step ads)" v]
    by (simp add: run_audit_modes filter_url_warnings opts_seen_fields cong: option.case_cong)
qed

lemma modeC_outcome:
  assumes "modeC (config os)" and "protocol (url_parse e (url os)) \<noteq> None"
  shows "outcome (run e drv os) = Returned (final_promise e os (the (auditResults (config os))))"
  using assms by (auto simp: modeC_run final_promise_finish)

lemma audits_step_first_call:
  assumes "ads \<noteq> []"
  shows "AuditCall 0 a \<in> set (fst (audits_step ads a))"
proof -
  obtain d ds where ads: "ads = d # ds" using assms by (cases ads) auto
  have "AuditCall 0 a \<in> set (fst (map_audits 0 ads a))"
    unfolding ads by (cases "audit d a") (simp_all add: Let_def case_prod_beta)
  then have "AuditCall 0 a \<in> set (filter is_audit (fst (map_audits 0 ads a)))" by simp
  then have "AuditCall 0 a \<in> set (filter is_audit (fst (audits_step ads a)))"
    by (simp add: filter_audit_audits_step)
  then show ?thesis by simp
qed

lemma save_phase:
  assumes "artifacts_for e drv os a" and "flags os = Some fl"
  defines "c \<equiv> save_chain e (opts_seen e drv os) fl"
  obtains proto ads g where "audits (config os) = Some ads"
    and "run e drv os =
      finish e (opts_seen e drv os) (url_warnings proto (url_parse e (url os)))
        (promise_then (c (g, Fulfilled a)) (audits_step ads))"
    and "filter is_persist g = []" and "filter is_audit g = []"
proof -
  obtain proto fl' ads g where "flags os = Some fl'" and "audits (config os) = Some ads"
    and "run e drv os =
      finish e (opts_seen e drv os) (url_warnings proto (url_parse e (url os)))
        (promise_then (save_chain e (opts_seen e drv os) fl' (g, Fulfilled a)) (audits_step ads))"
    and "filter is_persist g = []" and "filter is_audit g = []"
    using assms(1) by (rule artifacts_phase)
  then show ?thesis using that [of ads proto g] assms(2) by (simp add: c_def)
qed

lemma persist_calls:
  assumes "artifacts_for e drv os a" and "flags os = Some fl"
  shows "filter is_persist (trace (run e drv os)) =
     (if saveArtifacts fl then [SaveArtifacts a] else []) @
     (if saveAssets fl \<and> (saveArtifacts fl \<longrightarrow> (\<forall>err. assetSaver_saveArtifacts e a \<noteq> Throws err))
      then [SaveAssets (opts_seen e drv os) a] else [])"
proof -
  obtain proto ads g where r: "run e drv os =
      finish e (opts_seen e drv os) (url_warnings proto (url_parse e (url os)))
        (promise_then (save_chain e (opts_seen e drv os) fl (g, Fulfilled a)) (audits_step ads))"
    and g: "filter is_persist g = []"
    using assms by (rule save_phase)
  show ?thesis
    using g
    by (simp add: r filter_trace_finish filter_url_warnings filter_promise_then
        filter_audits_step fst_save_chain)
qed

lemma saver_throws:
  assumes "artifacts_for e drv os a" and "flags os = Some fl"
    and "snd (save_chain e (opts_seen e drv os) fl (g, Fulfilled a)) = Rejected err"
    and "run e drv os =
      finish e (opts_seen e drv os) w
        (promise_then (save_chain e (opts_seen e drv os) fl (g, Fulfilled a)) (audits_step ads))"
    and "filter is_audit g = []" and "filter is_audit w = []"
  shows "outcome (run e drv os) = Returned (Rejected err)
    \<and> filter is_audit (trace (run e drv os)) = []"
  using assms(3,5,6)
  by (simp add: assms(4) outcome_finish snd_promise_then filter_trace_finish fst_promise_then
      filter_save_chain)

lemma audit_arguments:
  assumes "artifacts_for e drv os a" and "AuditCall i x \<in> set (trace (run e drv os))"
  shows "x = a"
proof -
  obtain fl where fl: "flags os = Some fl" using assms(1) by (auto simp: artifacts_for_def)
  obtain proto ads g where r: "run e drv os =
      finish e (opts_seen e drv os) (url_warnings proto (url_parse e (url os)))
        (promise_then (save_chain e (opts_seen e drv os) fl (g, Fulfilled a)) (audits_step ads))"
    and g: "filter is_audit g = []"
    using assms(1) fl by (rule save_phase)
  define c where "c = save_chain e (opts_seen e drv os) fl (g, Fulfilled a)"
  have "AuditCall i x \<in> set (filter is_audit (trace (run e drv os)))"
    using assms(2) by simp
  then have "AuditCall i x \<in> set (filter is_audit (fst (promise_then c (audits_step ads))))"
    by (simp add: r c_def filter_trace_finish filter_url_warnings)
  moreover have "filter is_audit (fst c) = []"
    using g by (simp add: c_def filter_save_chain)
  moreover have "snd c = Fulfilled a \<or> (\<exists>err. snd c = Rejected err)"
    by (auto simp: c_def snd_save_chain split: call.splits)
  ultimately have "AuditCall i x \<in> set (fst (audits_step ads a))"
    by (auto simp: fst_promise_then)
  then show ?thesis by (rule audits_step_argument)
qed


lemma artifacts_for_savers:
  "artifacts_for (e\<lparr>assetSaver_saveArtifacts := f, assetSaver_saveAssets := g\<rparr>) drv os a
     = artifacts_for e drv os a"
  by (simp add: artifacts_for_def opts_seen_def)

lemma final_promise_savers:
  "final_promise (e\<lparr>assetSaver_saveArtifacts := f, assetSaver_saveAssets := g\<rparr>) os rs
     = final_promise e os rs"
  by (simp add: final_promise_def cong: option.case_cong promise.case_cong)

lemma filter_dropWhile_Nil:
  assumes "filter P xs = []"
  shows "filter P (dropWhile Q xs) = []"
  using assms by (induction xs) (auto split: if_splits)

lemma dropWhile_no_match:
  assumes "filter (\<lambda>x. \<not> Q x) xs = []"
  shows "dropWhile Q (xs @ ys) = dropWhile Q ys"
  using assms by (induction xs) (auto split: if_splits)

lemma savers_before_audits:
  assumes "artifacts_for e drv os a" and "flags os = Some fl"
  shows "filter is_persist (dropWhile (\<lambda>ev. \<not> is_audit ev) (trace (run e drv os))) = []"
proof -
  obtain proto ads g where r: "run e drv os =
      finish e (opts_seen e drv os) (url_warnings proto (url_parse e (url os)))
        (promise_then (save_chain e (opts_seen e drv os) fl (g, Fulfilled a)) (audits_step ads))"
    and g: "filter is_audit g = []"
    using assms by (rule save_phase)
  define c where "c = save_chain e (opts_seen e drv os) fl (g, Fulfilled a)"
  define w where "w = url_warnings proto (url_parse e (url os))"
  define rest where "rest = (case snd c of Fulfilled v \<Rightarrow> fst (audits_step ads v) | Rejected err \<Rightarrow> [] | Pending \<Rightarrow> [])
     @ (case snd (promise_then c (audits_step ads)) of
        Fulfilled rs \<Rightarrow> (case aggregations (config (opts_seen e drv os)) of Some spec \<Rightarrow> [Aggregate spec rs] | None \<Rightarrow> [])
      | Rejected err \<Rightarrow> [] | Pending \<Rightarrow> [])"
  have t: "trace (run e drv os) = (w @ fst c) @ rest"
    by (simp add: r c_def w_def rest_def trace_finish fst_promise_then)
  have "filter is_audit (w @ fst c) = []"
    using g by (simp add: w_def c_def filter_url_warnings filter_save_chain)
  then have "filter (\<lambda>x. \<not> \<not> is_audit x) (w @ fst c) = []" by simp
  then have d: "dropWhile (\<lambda>ev. \<not> is_audit ev) (trace (run e drv os)) = dropWhile (\<lambda>ev. \<not> is_audit ev) rest"
    unfolding t by (rule dropWhile_no_match)
  have "filter is_persist rest = []"
    by (cases "snd c"; cases "snd (promise_then c (audits_step ads))";
        cases "aggregations (config (opts_seen e drv os))")
       (simp_all add: rest_def filter_audits_step)
  then show ?thesis unfolding d by (rule filter_dropWhile_Nil)
qed

lemmas concrete_defs = node_env_def node_url_parse_def opts_of_def empty_config_def no_flags_def
  two_audits_def gather_config_def two_results_def results_config_def page_artifacts_def
  audit_config_def same_name_audits_def throwing_audits_def failing_audits_def save_flags_def
  rejecting_saver_env_def hanging_saver_env_def throwing_saver_env_def

lemma artifacts_for_config:
  "artifacts_for node_env drv (opts_of ''https://example.com/'' (audit_config ads aggs) (Some fl))
     page_artifacts"
  by (simp add: artifacts_for_def node_env_def node_url_parse_def opts_of_def audit_config_def
      modeA_def modeB_def)

lemma savers_return_node:
  "savers_return node_env drv os a"
  by (simp add: savers_return_def node_env_def split: option.splits)

section \<open>The claims\<close>

subsection \<open>C1: a configuration of no mode\<close>

text \<open>
  Where the code does what is asked of it. When the configuration provides neither passes
  and audits, nor artifacts and audits, nor audit results, the call throws synchronously
  and no collaborator (gatherer, saver, audit, aggregator) is ever called; past line 37
  the error is the configuration error of line 92.
\<close>

lemma config_without_mode_throws:
  assumes "\<not> (passes (config os) \<noteq> None \<and> audits (config os) \<noteq> None)"
    and "\<not> (artifacts (config os) \<noteq> None \<and> audits (config os) \<noteq> None)"
    and "auditResults (config os) = None"
  shows "(\<exists>err. outcome (run e drv os) = Thrown err)
    \<and> filter is_collaborator (trace (run e drv os)) = []
    \<and> (protocol (url_parse e (url os)) \<noteq> None \<longrightarrow> outcome (run e drv os) = Thrown config_error)"
proof -
  have m: "\<not> modeA (config os)" "\<not> modeB (config os)" "\<not> modeC (config os)"
    using assms by (auto simp: modeA_def modeB_def modeC_def)
  show ?thesis
  proof (cases "protocol (url_parse e (url os))")
    case None
    then show ?thesis using m by (simp add: run_no_protocol)
  next
    case (Some proto)
    then show ?thesis
      using m by (simp add: run_no_mode filter_url_warnings is_collaborator_def)
  qed
qed

lemma config_without_mode_throws_example:
  "outcome (run node_env JNull (opts_of ''http://example.com'' empty_config (Some no_flags)))
     = Thrown config_error
   \<and> filter is_collaborator
       (trace (run node_env JNull (opts_of ''http://example.com'' empty_config (Some no_flags)))) = []"
  using config_without_mode_throws
    [of "opts_of ''http://example.com'' empty_config (Some no_flags)" node_env JNull]
  by (simp add: concrete_defs)

text \<open>
  C1. A run whose configuration provides none of the three shapes is to fail at once with
  the configuration error, before any collaborator is called. At the URL \<^verbatim>\<open>example.com\<close>
  the code fails with another error: \<^verbatim>\<open>url.parse\<close> gives a \<^verbatim>\<open>null\<close> protocol, line 37
  reads \<^verbatim>\<open>includes\<close> of it, and the \<^verbatim>\<open>TypeError\<close> leaves the call before the configuration
  is looked at. The comment of line 36 has the check complain to the user, not end the
  run.
\<close>

theorem schemeless_url_hides_config_error:
  "passes (config (opts_of ''example.com'' empty_config (Some no_flags))) = None
   \<and> artifacts (config (opts_of ''example.com'' empty_config (Some no_flags))) = None
   \<and> auditResults (config (opts_of ''example.com'' empty_config (Some no_flags))) = None
   \<and> outcome (run node_env JNull (opts_of ''example.com'' empty_config (Some no_flags)))
       = Thrown (TypeError ''Cannot read property includes of null'')
   \<and> outcome (run node_env JNull (opts_of ''example.com'' empty_config (Some no_flags)))
       \<noteq> Thrown config_error"
  by (simp add: concrete_defs run_def Let_def config_error_def)

subsection \<open>C2: when the gatherer is called\<close>

text \<open>
  Where the code does what is asked of it. Past line 37, a configuration with passes and
  audits has the gatherer called exactly once, with the configured passes and the options
  object carrying the driver, also when the configuration provides artifacts too. A
  configuration without passes and audits never has it called: one with artifacts and
  audits takes the artifacts of the configuration.
\<close>

lemma gatherer_called_in_modeA_only:
  "(modeA (config os) \<and> protocol (url_parse e (url os)) \<noteq> None \<longrightarrow>
      filter is_gather (trace (run e drv os))
        = [GatherRun (the (passes (config os))) (opts_seen e drv os)])
   \<and> (\<not> modeA (config os) \<longrightarrow> filter is_gather (trace (run e drv os)) = [])"
proof (cases rule: run_cases [of e os])
  case no_protocol
  then show ?thesis by (simp add: run_no_protocol)
next
  case (no_mode proto)
  then show ?thesis by (simp add: run_no_mode filter_url_warnings)
next
  case (modeC proto rs)
  then show ?thesis
    using modeC_not_AB [of "config os"]
    by (simp add: run_modeC filter_trace_finish filter_url_warnings)
next
  case (no_flags proto)
  show ?thesis
  proof (cases "modeA (config os)")
    case True
    then obtain ps ads where "passes (config os) = Some ps" and "audits (config os) = Some ads"
      by (auto simp: modeA_def)
    then show ?thesis
      using no_flags True by (simp add: run_no_flags artifacts_chain_gather filter_url_warnings)
  next
    case False
    then obtain x where "artifacts (config os) = Some x"
      using no_flags by (auto simp: modeB_def)
    then show ?thesis
      using no_flags False by (simp add: run_no_flags artifacts_chain_config filter_url_warnings)
  qed
next
  case (audit_modes proto fl ads)
  have rest: "filter is_gather (trace (run e drv os))
      = filter is_gather (fst (artifacts_chain e (config os) (opts_seen e drv os)))"
    using audit_modes
    by (simp add: run_audit_modes filter_trace_finish filter_url_warnings filter_promise_then
        filter_save_chain filter_audits_step)
  show ?thesis
  proof (cases "modeA (config os)")
    case True
    then obtain ps where "passes (config os) = Some ps" by (auto simp: modeA_def)
    then show ?thesis
      using audit_modes True rest by (simp add: artifacts_chain_gather)
  next
    case False
    then obtain x where "artifacts (config os) = Some x"
      using audit_modes by (auto simp: modeB_def)
    then show ?thesis
      using rest False by (simp add: artifacts_chain_config)
  qed
qed

lemma gatherer_called_in_modeA_only_example:
  "modeA gather_config \<and> artifacts gather_config \<noteq> None
   \<and> filter is_gather
       (trace (run node_env (JStr ''driver'') (opts_of ''https://example.com/'' gather_config (Some no_flags))))
     = [GatherRun (JArr [JStr ''defaultPass''])
         \<lparr>url = ''https://example.com/'', initialUrl = Some ''https://example.com/'',
          driver = Some (JStr ''driver''), config = gather_config, flags = Some no_flags\<rparr>]"
  using gatherer_called_in_modeA_only
    [of "opts_of ''https://example.com/'' gather_config (Some no_flags)" node_env "JStr ''driver''"]
  by (simp add: concrete_defs modeA_def opts_seen_def)

text \<open>
  C2. The gatherer is to be called exactly when the configuration provides passes and
  audits, and then once. At the URL \<^verbatim>\<open>example.com\<close> the code does not call it for such a
  configuration: the \<^verbatim>\<open>TypeError\<close> of line 37, raised on the \<^verbatim>\<open>null\<close> protocol, leaves the
  call before line 57 sets the gatherer up. It is the defect C1 meets.
\<close>

theorem schemeless_url_skips_gatherer:
  "modeA (config (opts_of ''example.com'' gather_config (Some no_flags)))
   \<and> outcome (run node_env (JStr ''driver'') (opts_of ''example.com'' gather_config (Some no_flags)))
     = Thrown (TypeError ''Cannot read property includes of null'')
   \<and> filter is_gather
       (trace (run node_env (JStr ''driver'') (opts_of ''example.com'' gather_config (Some no_flags))))
     = []"
  by (simp add: concrete_defs run_def Let_def modeA_def)

subsection \<open>C3: audit results passed through\<close>

text \<open>
  C3. With audit results and neither of the other two shapes, no run calls the gatherer,
  a saver or an audit. When the URL parses with a protocol, the promise returned is
  fulfilled with the audit results of the configuration as they are if there is no
  aggregation; with one, the aggregator is called once on them and the report is built
  from them, unless the aggregator fails or never answers. The mapping of that report
  is read off the audit results: under each name it holds the last of the results of
  that name and it holds nothing else, but that a result named \<^verbatim>\<open>__proto__\<close> is not an
  entry: it becomes the prototype of the mapping.
\<close>

theorem modeC_surfaces_results:
  assumes "modeC (config os)"
  shows "filter is_gather (trace (run e drv os)) = []
    \<and> filter is_persist (trace (run e drv os)) = []
    \<and> filter is_audit (trace (run e drv os)) = []
    \<and> (protocol (url_parse e (url os)) \<noteq> None \<longrightarrow>
         filter is_aggregate (trace (run e drv os))
           = (case aggregations (config os) of
                None \<Rightarrow> []
              | Some spec \<Rightarrow> [Aggregate spec (the (auditResults (config os)))])
         \<and> outcome (run e drv os) = Returned
             (case aggregations (config os) of
                None \<Rightarrow> Fulfilled (Flat (the (auditResults (config os))))
              | Some spec \<Rightarrow>
                 (case adopt (Aggregator_aggregate e spec (the (auditResults (config os)))) of
                    Fulfilled aggs \<Rightarrow> Fulfilled (Report
                      \<lparr>report_initialUrl = Some (url os),
                       report_url = url_format e (url_parse e (url os)),
                       report_audits = formattedAudits (the (auditResults (config os))),
                       report_aggregations = aggs\<rparr>)
                  | Rejected err \<Rightarrow> Rejected err
                  | Pending \<Rightarrow> Pending)))
    \<and> (\<forall>k. own (formattedAudits (the (auditResults (config os)))) k
          = (if k = ''__proto__'' then None
             else find (\<lambda>v. name v = k) (rev (the (auditResults (config os))))))
    \<and> prototype (formattedAudits (the (auditResults (config os))))
        = find (\<lambda>v. name v = ''__proto__'') (rev (the (auditResults (config os))))"
proof -
  have calls: "filter is_gather (trace (run e drv os)) = []"
      "filter is_persist (trace (run e drv os)) = []"
      "filter is_audit (trace (run e drv os)) = []"
    using assms by (simp_all add: modeC_calls)
  have "filter is_aggregate (trace (run e drv os))
           = (case aggregations (config os) of
                None \<Rightarrow> []
              | Some spec \<Rightarrow> [Aggregate spec (the (auditResults (config os)))])"
    if "protocol (url_parse e (url os)) = Some proto" for proto
    using assms that
    by (simp add: modeC_run trace_finish filter_url_warnings opts_seen_fields split: option.splits)
  moreover have "outcome (run e drv os) = Returned
             (case aggregations (config os) of
                None \<Rightarrow> Fulfilled (Flat (the (auditResults (config os))))
              | Some spec \<Rightarrow>
                 (case adopt (Aggregator_aggregate e spec (the (auditResults (config os)))) of
                    Fulfilled aggs \<Rightarrow> Fulfilled (Report
                      \<lparr>report_initialUrl = Some (url os),
                       report_url = url_format e (url_parse e (url os)),
                       report_audits = formattedAudits (the (auditResults (config os))),
                       report_aggregations = aggs\<rparr>)
                  | Rejected err \<Rightarrow> Rejected err
                  | Pending \<Rightarrow> Pending))"
    if "protocol (url_parse e (url os)) = Some proto" for proto
    using assms that
    by (simp add: modeC_run outcome_finish opts_seen_fields
        cong: option.case_cong promise.case_cong)
  moreover have "\<forall>k. own (formattedAudits (the (auditResults (config os)))) k
          = (if k = ''__proto__'' then None
             else find (\<lambda>v. name v = k) (rev (the (auditResults (config os)))))"
    by (simp add: formattedAudits_find)
  moreover have "prototype (formattedAudits (the (auditResults (config os))))
        = find (\<lambda>v. name v = ''__proto__'') (rev (the (auditResults (config os))))"
    by (rule formattedAudits_prototype)
  ultimately show ?thesis using calls by auto
qed

theorem modeC_surfaces_results_witness:
  "modeC (config (opts_of ''https://example.com/'' results_config None))
   \<and> filter is_gather
       (trace (run node_env JNull (opts_of ''https://example.com/'' results_config None))) = []
   \<and> filter is_audit
       (trace (run node_env JNull (opts_of ''https://example.com/'' results_config None))) = []
   \<and> filter is_aggregate
       (trace (run node_env JNull (opts_of ''https://example.com/'' results_config None)))
       = [Aggregate (JStr ''Best Practices'') two_results]
   \<and> outcome (run node_env JNull (opts_of ''https://example.com/'' results_config None))
       = Returned (Fulfilled (Report
           \<lparr>report_initialUrl = Some ''https://example.com/'',
            report_url = ''https://example.com/'',
            report_audits =
              \<lparr>own = [''viewport'' \<mapsto> \<lparr>name = ''viewport'', rawValue = JBool True\<rparr>,
                      ''is-on-https'' \<mapsto> \<lparr>name = ''is-on-https'', rawValue = JBool False\<rparr>],
               prototype = None\<rparr>,
            report_aggregations = JArr [JStr ''Best Practices'', JNum 2]\<rparr>))
   \<and> own (formattedAudits two_results) ''viewport''
       = Some \<lparr>name = ''viewport'', rawValue = JBool True\<rparr>
   \<and> own (formattedAudits two_results) ''is-on-https''
       = Some \<lparr>name = ''is-on-https'', rawValue = JBool False\<rparr>
   \<and> own (formattedAudits two_results) ''manifest'' = None"
  using modeC_surfaces_results [of "opts_of ''https://example.com/'' results_config None" node_env JNull]
  by (simp add: node_env_def node_url_parse_def opts_of_def results_config_def
      modeA_def modeB_def modeC_def two_results_def formattedAudits_def set_property_def)

subsection \<open>C4: the audits and the mapping of their results\<close>

text \<open>
  C4, as the code has it. Take a run with audits to make that has got its artifacts and
  whose savers did not throw. If no audit throws, each of the N audits is called exactly
  once, with these artifacts, in the order of the configuration. If every audit ends with
  a value, at whatever tick, the list of results holds the values in the order of the
  configuration: it is what the run resolves to without an aggregation, and what the
  aggregator and the report are given with one. The mapping of the report never has more
  than N entries. When no result is named \<^verbatim>\<open>__proto__\<close>, it has one entry for each name
  among the results, the last result of a name being the one kept: N entries when the
  names are distinct.
\<close>

theorem audits_called_in_order:
  assumes "artifacts_for e drv os a" and "savers_return e drv os a"
    and "audits (config os) = Some ads"
  shows "((\<forall>d\<in>set ads. \<forall>err. audit d a \<noteq> Throws err) \<longrightarrow>
      filter is_audit (trace (run e drv os)) = map (\<lambda>i. AuditCall i a) [0..<length ads])
    \<and> (map (\<lambda>d. call_value (audit d a)) ads = map Some vs \<longrightarrow>
        length vs = length ads
        \<and> outcome (run e drv os) = Returned (final_promise e os vs)
        \<and> (aggregations (config os) = None \<longrightarrow>
             outcome (run e drv os) = Returned (Fulfilled (Flat vs)))
        \<and> (\<forall>spec. aggregations (config os) = Some spec \<longrightarrow>
             filter is_aggregate (trace (run e drv os)) = [Aggregate spec vs])
        \<and> (\<forall>spec aggs. aggregations (config os) = Some spec
               \<and> adopt (Aggregator_aggregate e spec vs) = Fulfilled aggs \<longrightarrow>
             outcome (run e drv os) = Returned (Fulfilled (Report
               \<lparr>report_initialUrl = Some (url os),
                report_url = url_format e (url_parse e (url os)),
                report_audits = formattedAudits vs,
                report_aggregations = aggs\<rparr>)))
        \<and> (\<forall>rep. outcome (run e drv os) = Returned (Fulfilled (Report rep)) \<longrightarrow>
             report_audits rep = formattedAudits vs)
        \<and> card (dom (own (formattedAudits vs))) \<le> length ads
        \<and> (''__proto__'' \<notin> name ` set vs \<longrightarrow>
             dom (own (formattedAudits vs)) = name ` set vs
             \<and> (\<forall>k. own (formattedAudits vs) k = find (\<lambda>v. name v = k) (rev vs))
             \<and> (distinct (map name vs) \<longrightarrow>
                  card (dom (own (formattedAudits vs))) = length ads)))"
proof (intro conjI impI)
  assume "\<forall>d\<in>set ads. \<forall>err. audit d a \<noteq> Throws err"
  then obtain rs where "map (\<lambda>d. audit d a) ads = map Returns rs"
    using no_throw_returns by blast
  then show "filter is_audit (trace (run e drv os)) = map (\<lambda>i. AuditCall i a) [0..<length ads]"
    using audit_phase_outcome(2) [OF assms] audits_step_called(1) by simp
next
  assume vs: "map (\<lambda>d. call_value (audit d a)) ads = map Some vs"
  then show len: "length vs = length ads" by (metis length_map)
  have f: "snd (audits_step ads a) = Fulfilled vs" using vs by (rule audits_step_values)
  show out: "outcome (run e drv os) = Returned (final_promise e os vs)"
    using audit_phase_outcome(1) [OF assms] f by simp
  show "outcome (run e drv os) = Returned (Fulfilled (Flat vs))"
    if "aggregations (config os) = None"
    using out that by (simp add: final_promise_def)
  show "\<forall>spec. aggregations (config os) = Some spec \<longrightarrow>
      filter is_aggregate (trace (run e drv os)) = [Aggregate spec vs]"
    using audit_phase_outcome(3) [OF assms] f by simp
  show "\<forall>spec aggs. aggregations (config os) = Some spec
               \<and> adopt (Aggregator_aggregate e spec vs) = Fulfilled aggs \<longrightarrow>
             outcome (run e drv os) = Returned (Fulfilled (Report
               \<lparr>report_initialUrl = Some (url os),
                report_url = url_format e (url_parse e (url os)),
                report_audits = formattedAudits vs,
                report_aggregations = aggs\<rparr>))"
    using out by (simp add: final_promise_def)
  show "\<forall>rep. outcome (run e drv os) = Returned (Fulfilled (Report rep)) \<longrightarrow>
      report_audits rep = formattedAudits vs"
    using out by (auto simp: final_promise_def split: option.splits promise.splits)
  show "card (dom (own (formattedAudits vs))) \<le> length ads"
    using card_formattedAudits_le [of vs] len by simp
next
  assume vs: "map (\<lambda>d. call_value (audit d a)) ads = map Some vs"
    and np: "''__proto__'' \<notin> name ` set vs"
  have len: "length vs = length ads" using vs by (metis length_map)
  show "dom (own (formattedAudits vs)) = name ` set vs"
    using np by (simp add: dom_formattedAudits)
  show "\<forall>k. own (formattedAudits vs) k = find (\<lambda>v. name v = k) (rev vs)"
  proof
    fix k
    show "own (formattedAudits vs) k = find (\<lambda>v. name v = k) (rev vs)"
    proof (cases "k = ''__proto__''")
      case True
      then have "find (\<lambda>v. name v = k) (rev vs) = None"
        using np by (auto simp: find_None_iff image_iff)
      then show ?thesis using True by (simp add: formattedAudits_find)
    next
      case False
      then show ?thesis by (simp add: formattedAudits_find)
    qed
  qed
  show "card (dom (own (formattedAudits vs))) = length ads" if "distinct (map name vs)"
    using card_formattedAudits_distinct [OF that np] len by simp
qed

theorem audits_called_in_order_witness:
  "filter is_audit (trace (run node_env JNull
       (opts_of ''https://example.com/'' (audit_config two_audits (Some (JStr ''Mobile''))) (Some no_flags))))
     = [AuditCall 0 page_artifacts, AuditCall 1 page_artifacts]
   \<and> outcome (run node_env JNull
       (opts_of ''https://example.com/'' (audit_config two_audits (Some (JStr ''Mobile''))) (Some no_flags)))
     = Returned (Fulfilled (Report
         \<lparr>report_initialUrl = Some ''https://example.com/'',
          report_url = ''https://example.com/'',
          report_audits =
            \<lparr>own = [''viewport'' \<mapsto> \<lparr>name = ''viewport'', rawValue = page_artifacts\<rparr>,
                    ''is-on-https'' \<mapsto> \<lparr>name = ''is-on-https'', rawValue = JBool True\<rparr>],
             prototype = None\<rparr>,
          report_aggregations = JArr [JStr ''Mobile'', JNum 2]\<rparr>))
   \<and> card (dom [''viewport'' \<mapsto> \<lparr>name = ''viewport'', rawValue = page_artifacts\<rparr>,
                 ''is-on-https'' \<mapsto> \<lparr>name = ''is-on-https'', rawValue = JBool True\<rparr>]) = 2"
proof -
  let ?os = "opts_of ''https://example.com/'' (audit_config two_audits (Some (JStr ''Mobile''))) (Some no_flags)"
  let ?vs = "[\<lparr>name = ''viewport'', rawValue = page_artifacts\<rparr>,
             \<lparr>name = ''is-on-https'', rawValue = JBool True\<rparr>]"
  have a: "artifacts_for node_env JNull ?os page_artifacts" by (rule artifacts_for_config)
  have s: "savers_return node_env JNull ?os page_artifacts" by (rule savers_return_node)
  have c: "audits (config ?os) = Some two_audits" by (simp add: opts_of_def audit_config_def)
  have v: "map (\<lambda>d. call_value (audit d page_artifacts)) two_audits = map Some ?vs"
    by (simp add: two_audits_def)
  have n: "\<forall>d\<in>set two_audits. \<forall>err. audit d page_artifacts \<noteq> Throws err"
    by (simp add: two_audits_def)
  have d: "distinct (map name ?vs)" "''__proto__'' \<notin> name ` set ?vs" by simp_all
  have f: "formattedAudits ?vs =
      \<lparr>own = [''viewport'' \<mapsto> \<lparr>name = ''viewport'', rawValue = page_artifacts\<rparr>,
              ''is-on-https'' \<mapsto> \<lparr>name = ''is-on-https'', rawValue = JBool True\<rparr>],
       prototype = None\<rparr>"
    by (simp add: formattedAudits_def set_property_def)
  show ?thesis
    using audits_called_in_order [OF a s c, of ?vs] v n d
    by (simp add: f final_promise_def opts_of_def audit_config_def node_env_def
        node_url_parse_def two_audits_def upt_rec)
qed

text \<open>
  C4 as stated fails for two audits whose results have the same name: the mapping has one
  entry, not two. And of two audits the first of which throws, the second is never called.
\<close>

theorem audits_mapping_counterexample:
  "length same_name_audits = 2
   \<and> outcome (run node_env JNull
       (opts_of ''https://example.com/'' (audit_config same_name_audits (Some (JStr ''Mobile''))) (Some no_flags)))
     = Returned (Fulfilled (Report
         \<lparr>report_initialUrl = Some ''https://example.com/'',
          report_url = ''https://example.com/'',
          report_audits =
            \<lparr>own = [''viewport'' \<mapsto> \<lparr>name = ''viewport'', rawValue = JBool False\<rparr>],
             prototype = None\<rparr>,
          report_aggregations = JArr [JStr ''Mobile'', JNum 2]\<rparr>))
   \<and> card (dom [''viewport'' \<mapsto> \<lparr>name = ''viewport'', rawValue = JBool False\<rparr>]) = 1
   \<and> length throwing_audits = 2
   \<and> filter is_audit (trace (run node_env JNull
       (opts_of ''https://example.com/'' (audit_config throwing_audits None) (Some no_flags))))
     = [AuditCall 0 page_artifacts]"
  by (simp add: run_def Let_def finish_def promise_then_def artifacts_chain_def save_chain_def
      audits_step_def statusEnd_events_def promise_all_def aggregate_step_def report_step_def
      formattedAudits_def set_property_def url_warnings_def List.map_filter_def
      opts_of_def audit_config_def node_env_def node_url_parse_def same_name_audits_def
      throwing_audits_def no_flags_def)

subsection \<open>C5: the shape of the result\<close>

text \<open>
  C5. A promise that is fulfilled is fulfilled with a report exactly when the
  configuration has an aggregation, and the \<^verbatim>\<open>aggregations\<close> of the report are what the
  one call of the aggregator was fulfilled with; without an aggregation it is fulfilled
  with the list of audit results as it is. And the promise is fulfilled so: with the audit
  results of the configuration when they are all it provides and the URL parses with a
  protocol, and with the values of the audits when the run has got its artifacts, the
  savers did not throw and every audit ends with a value; it then follows the aggregator.
\<close>

theorem report_only_with_aggregations:
  "(outcome (run e drv os) = Returned (Fulfilled v) \<longrightarrow>
      (case aggregations (config os) of
         None \<Rightarrow> \<exists>rs. v = Flat rs
       | Some spec \<Rightarrow>
           \<exists>rep rs. v = Report rep
             \<and> filter is_aggregate (trace (run e drv os)) = [Aggregate spec rs]
             \<and> adopt (Aggregator_aggregate e spec rs) = Fulfilled (report_aggregations rep)))
   \<and> (modeC (config os) \<and> protocol (url_parse e (url os)) \<noteq> None \<longrightarrow>
        outcome (run e drv os) = Returned (final_promise e os (the (auditResults (config os)))))
   \<and> (artifacts_for e drv os a \<and> savers_return e drv os a
        \<and> map (\<lambda>d. call_value (audit d a)) (the (audits (config os))) = map Some vs \<longrightarrow>
        outcome (run e drv os) = Returned (final_promise e os vs))
   \<and> (\<forall>spec aggs. aggregations (config os) = Some spec
        \<and> adopt (Aggregator_aggregate e spec rs) = Fulfilled aggs \<longrightarrow>
        final_promise e os rs = Fulfilled (Report
          \<lparr>report_initialUrl = Some (url os),
           report_url = url_format e (url_parse e (url os)),
           report_audits = formattedAudits rs,
           report_aggregations = aggs\<rparr>))
   \<and> (aggregations (config os) = None \<longrightarrow> final_promise e os rs = Fulfilled (Flat rs))"
proof (intro conjI impI allI)
  assume "outcome (run e drv os) = Returned (Fulfilled v)"
  then show "case aggregations (config os) of
         None \<Rightarrow> \<exists>rs. v = Flat rs
       | Some spec \<Rightarrow>
           \<exists>rep rs. v = Report rep
             \<and> filter is_aggregate (trace (run e drv os)) = [Aggregate spec rs]
             \<and> adopt (Aggregator_aggregate e spec rs) = Fulfilled (report_aggregations rep)"
    by (rule run_shape)
next
  assume "modeC (config os) \<and> protocol (url_parse e (url os)) \<noteq> None"
  then show "outcome (run e drv os) = Returned (final_promise e os (the (auditResults (config os))))"
    by (simp add: modeC_outcome)
next
  assume h: "artifacts_for e drv os a \<and> savers_return e drv os a
        \<and> map (\<lambda>d. call_value (audit d a)) (the (audits (config os))) = map Some vs"
  then obtain ads where ads: "audits (config os) = Some ads"
    by (auto simp: artifacts_for_def modeA_def modeB_def)
  then have "snd (audits_step ads a) = Fulfilled vs"
    using h audits_step_values(2) [of a ads vs] by simp
  then show "outcome (run e drv os) = Returned (final_promise e os vs)"
    using h ads audit_phase_outcome(1) [of e drv os a ads] by simp
next
  fix spec aggs
  assume "aggregations (config os) = Some spec
        \<and> adopt (Aggregator_aggregate e spec rs) = Fulfilled aggs"
  then show "final_promise e os rs = Fulfilled (Report
          \<lparr>report_initialUrl = Some (url os),
           report_url = url_format e (url_parse e (url os)),
           report_audits = formattedAudits rs,
           report_aggregations = aggs\<rparr>)"
    by (simp add: final_promise_def)
next
  assume "aggregations (config os) = None"
  then show "final_promise e os rs = Fulfilled (Flat rs)"
    by (simp add: final_promise_def)
qed

theorem report_only_with_aggregations_witness:
  "outcome (run node_env JNull
       (opts_of ''https://example.com/'' (audit_config two_audits (Some (JStr ''Mobile''))) (Some no_flags)))
     = Returned (Fulfilled (Report
         \<lparr>report_initialUrl = Some ''https://example.com/'',
          report_url = ''https://example.com/'',
          report_audits = formattedAudits
            [\<lparr>name = ''viewport'', rawValue = page_artifacts\<rparr>,
             \<lparr>name = ''is-on-https'', rawValue = JBool True\<rparr>],
          report_aggregations = JArr [JStr ''Mobile'', JNum 2]\<rparr>))
   \<and> outcome (run node_env JNull
       (opts_of ''https://example.com/'' (audit_config two_audits None) (Some no_flags)))
     = Returned (Fulfilled (Flat
            [\<lparr>name = ''viewport'', rawValue = page_artifacts\<rparr>,
             \<lparr>name = ''is-on-https'', rawValue = JBool True\<rparr>]))
   \<and> outcome (run node_env JNull (opts_of ''https://example.com/'' results_config None))
     = Returned (Fulfilled (Report
         \<lparr>report_initialUrl = Some ''https://example.com/'',
          report_url = ''https://example.com/'',
          report_audits = formattedAudits two_results,
          report_aggregations = JArr [JStr ''Best Practices'', JNum 2]\<rparr>))"
proof -
  let ?vs = "[\<lparr>name = ''viewport'', rawValue = page_artifacts\<rparr>,
             \<lparr>name = ''is-on-https'', rawValue = JBool True\<rparr>]"
  let ?os = "\<lambda>aggs. opts_of ''https://example.com/'' (audit_config two_audits aggs) (Some no_flags)"
  have v: "map (\<lambda>d. call_value (audit d page_artifacts)) (the (audits (config (?os aggs)))) = map Some ?vs"
    for aggs
    by (simp add: two_audits_def opts_of_def audit_config_def)
  have c: "modeC (config (opts_of ''https://example.com/'' results_config None))"
    "protocol (url_parse node_env (url (opts_of ''https://example.com/'' results_config None))) \<noteq> None"
    by (simp_all add: modeA_def modeB_def modeC_def opts_of_def results_config_def node_env_def
        node_url_parse_def)
  show ?thesis
    using report_only_with_aggregations
        [of node_env JNull "?os (Some (JStr ''Mobile''))" _ page_artifacts ?vs ?vs]
      report_only_with_aggregations [of node_env JNull "?os None" _ page_artifacts ?vs ?vs]
      report_only_with_aggregations
        [of node_env JNull "opts_of ''https://example.com/'' results_config None" _ _ _ two_results]
      v c artifacts_for_config [of JNull two_audits _ no_flags] savers_return_node
    by (simp add: opts_of_def audit_config_def results_config_def node_env_def node_url_parse_def
        two_results_def)
qed

subsection \<open>C6: saving the artifacts and the assets\<close>

text \<open>
  C6, as the code has it. Take a run with audits to make that has got its artifacts, with
  flags. A saver whose flag is set is called once, on these artifacts; every audit that
  is called is called on the same artifacts, and no saver is called once an audit has
  been. If a saver throws, the promise of the run is rejected with its error and no audit
  is called. What a saver returns is dropped: when the savers return, the audits are
  called, and the outcome is the same for any other savers that return, whatever they
  return, a promise that is rejected or never settles included.
\<close>

theorem savers_called_and_dropped:
  assumes "artifacts_for e drv os a" and "flags os = Some fl"
  shows "filter is_persist (trace (run e drv os)) =
       (if saveArtifacts fl then [SaveArtifacts a] else []) @
       (if saveAssets fl \<and> (saveArtifacts fl \<longrightarrow> (\<forall>err. assetSaver_saveArtifacts e a \<noteq> Throws err))
        then [SaveAssets (opts_seen e drv os) a] else [])
    \<and> (\<forall>i x. AuditCall i x \<in> set (trace (run e drv os)) \<longrightarrow> x = a)
    \<and> filter is_persist (dropWhile (\<lambda>ev. \<not> is_audit ev) (trace (run e drv os))) = []
    \<and> (saveArtifacts fl \<and> assetSaver_saveArtifacts e a = Throws err \<longrightarrow>
         outcome (run e drv os) = Returned (Rejected err)
         \<and> filter is_audit (trace (run e drv os)) = [])
    \<and> (saveAssets fl \<and> (saveArtifacts fl \<longrightarrow> (\<forall>err'. assetSaver_saveArtifacts e a \<noteq> Throws err'))
         \<and> assetSaver_saveAssets e (opts_seen e drv os) a = Throws err \<longrightarrow>
         outcome (run e drv os) = Returned (Rejected err)
         \<and> filter is_audit (trace (run e drv os)) = [])
    \<and> (savers_return e drv os a \<longrightarrow>
         (audits (config os) \<noteq> Some [] \<longrightarrow> AuditCall 0 a \<in> set (trace (run e drv os)))
         \<and> (\<forall>f g. savers_return (e\<lparr>assetSaver_saveArtifacts := f, assetSaver_saveAssets := g\<rparr>)
                     drv os a \<longrightarrow>
               outcome (run (e\<lparr>assetSaver_saveArtifacts := f, assetSaver_saveAssets := g\<rparr>) drv os)
                 = outcome (run e drv os)))"
proof -
  obtain proto ads g where ads: "audits (config os) = Some ads"
    and r: "run e drv os =
      finish e (opts_seen e drv os) (url_warnings proto (url_parse e (url os)))
        (promise_then (save_chain e (opts_seen e drv os) fl (g, Fulfilled a)) (audits_step ads))"
    and g: "filter is_audit g = []"
    using assms by (rule save_phase)
  have w: "filter is_audit (url_warnings proto (url_parse e (url os))) = []"
    by (simp add: filter_url_warnings)
  have p1: "filter is_persist (trace (run e drv os)) =
       (if saveArtifacts fl then [SaveArtifacts a] else []) @
       (if saveAssets fl \<and> (saveArtifacts fl \<longrightarrow> (\<forall>err. assetSaver_saveArtifacts e a \<noteq> Throws err))
        then [SaveAssets (opts_seen e drv os) a] else [])"
    using assms by (rule persist_calls)
  have p2: "\<forall>i x. AuditCall i x \<in> set (trace (run e drv os)) \<longrightarrow> x = a"
    using audit_arguments [OF assms(1)] by blast
  have p3: "outcome (run e drv os) = Returned (Rejected err)
         \<and> filter is_audit (trace (run e drv os)) = []"
    if "saveArtifacts fl \<and> assetSaver_saveArtifacts e a = Throws err"
  proof -
    have "snd (save_chain e (opts_seen e drv os) fl (g, Fulfilled a)) = Rejected err"
      using that by (simp add: snd_save_chain)
    then show ?thesis using saver_throws [OF assms _ r g w] by simp
  qed
  have p4: "outcome (run e drv os) = Returned (Rejected err)
         \<and> filter is_audit (trace (run e drv os)) = []"
    if "saveAssets fl \<and> (saveArtifacts fl \<longrightarrow> (\<forall>err'. assetSaver_saveArtifacts e a \<noteq> Throws err'))
         \<and> assetSaver_saveAssets e (opts_seen e drv os) a = Throws err"
  proof -
    have "snd (save_chain e (opts_seen e drv os) fl (g, Fulfilled a)) = Rejected err"
      using that by (auto simp: snd_save_chain split: call.splits)
    then show ?thesis using saver_throws [OF assms _ r g w] by simp
  qed
  have p5: "audits (config os) \<noteq> Some [] \<longrightarrow> AuditCall 0 a \<in> set (trace (run e drv os))"
    if "savers_return e drv os a"
  proof
    assume "audits (config os) \<noteq> Some []"
    then have "ads \<noteq> []" using ads by simp
    then have "AuditCall 0 a \<in> set (filter is_audit (fst (audits_step ads a)))"
      using audits_step_first_call by simp
    then have "AuditCall 0 a \<in> set (filter is_audit (trace (run e drv os)))"
      using audit_phase_outcome(2) [OF assms(1) that ads] by simp
    then show "AuditCall 0 a \<in> set (trace (run e drv os))" by simp
  qed
  have p6: "outcome (run (e\<lparr>assetSaver_saveArtifacts := f, assetSaver_saveAssets := g'\<rparr>) drv os)
                 = outcome (run e drv os)"
    if s: "savers_return e drv os a"
      and s': "savers_return (e\<lparr>assetSaver_saveArtifacts := f, assetSaver_saveAssets := g'\<rparr>) drv os a"
    for f g'
  proof -
    have a': "artifacts_for (e\<lparr>assetSaver_saveArtifacts := f, assetSaver_saveAssets := g'\<rparr>) drv os a"
      using assms(1) by (simp add: artifacts_for_savers)
    show ?thesis
      using audit_phase_outcome(1) [OF a' s' ads] audit_phase_outcome(1) [OF assms(1) s ads]
      by (simp add: final_promise_savers cong: promise.case_cong)
  qed
  have p7: "filter is_persist (dropWhile (\<lambda>ev. \<not> is_audit ev) (trace (run e drv os))) = []"
    using assms by (rule savers_before_audits)
  show ?thesis using p1 p2 p3 p4 p5 p6 p7 by blast
qed

theorem savers_called_and_dropped_witness:
  "filter is_persist (trace (run node_env JNull
       (opts_of ''https://example.com/'' (audit_config two_audits None) (Some save_flags))))
     = [SaveArtifacts page_artifacts,
        SaveAssets (opts_seen node_env JNull
          (opts_of ''https://example.com/'' (audit_config two_audits None) (Some save_flags)))
          page_artifacts]
   \<and> AuditCall 0 page_artifacts \<in> set (trace (run node_env JNull
       (opts_of ''https://example.com/'' (audit_config two_audits None) (Some save_flags))))
   \<and> AuditCall 0 JNull \<notin> set (trace (run node_env JNull
       (opts_of ''https://example.com/'' (audit_config two_audits None) (Some save_flags))))
   \<and> outcome (run throwing_saver_env JNull
       (opts_of ''https://example.com/'' (audit_config two_audits None) (Some save_flags)))
     = Returned (Rejected (Error ''EACCES: permission denied''))
   \<and> filter is_audit (trace (run throwing_saver_env JNull
       (opts_of ''https://example.com/'' (audit_config two_audits None) (Some save_flags))))
     = []"
proof -
  let ?os = "opts_of ''https://example.com/'' (audit_config two_audits None) (Some save_flags)"
  have a: "artifacts_for node_env JNull ?os page_artifacts" by (rule artifacts_for_config)
  have a': "artifacts_for throwing_saver_env JNull ?os page_artifacts"
    by (simp add: artifacts_for_def throwing_saver_env_def node_env_def node_url_parse_def
        opts_of_def audit_config_def modeA_def modeB_def)
  have f: "flags ?os = Some save_flags" by (simp add: opts_of_def)
  have s: "savers_return node_env JNull ?os page_artifacts" by (rule savers_return_node)
  have t: "saveArtifacts save_flags
    \<and> assetSaver_saveArtifacts throwing_saver_env page_artifacts
        = Throws (Error ''EACCES: permission denied'')"
    by (simp add: save_flags_def throwing_saver_env_def node_env_def)
  have n: "audits (config ?os) \<noteq> Some []"
    "\<forall>err. assetSaver_saveArtifacts node_env page_artifacts \<noteq> Throws err"
    "saveArtifacts save_flags" "saveAssets save_flags"
    by (simp_all add: opts_of_def audit_config_def two_audits_def node_env_def save_flags_def)
  show ?thesis
    using savers_called_and_dropped [OF a f, of "Error ''x''"]
      savers_called_and_dropped [OF a' f, of "Error ''EACCES: permission denied''"] s t n
    by (auto simp: page_artifacts_def)
qed

text \<open>
  C6 as stated fails for a saver that answers by a promise: the promise is dropped, so
  the run is fulfilled although the promise of \<^verbatim>\<open>saveArtifacts\<close> is rejected, and it is
  fulfilled although the promise of \<^verbatim>\<open>saveAssets\<close> never settles.
\<close>

theorem saver_failure_counterexample:
  "saveArtifacts save_flags \<and> saveAssets save_flags
   \<and> assetSaver_saveArtifacts rejecting_saver_env page_artifacts
       = Returns (Later 1 (Reject (Error ''EACCES: permission denied'')))
   \<and> outcome (run rejecting_saver_env JNull
       (opts_of ''https://example.com/'' (audit_config two_audits None) (Some save_flags)))
     = Returned (Fulfilled (Flat
            [\<lparr>name = ''viewport'', rawValue = page_artifacts\<rparr>,
             \<lparr>name = ''is-on-https'', rawValue = JBool True\<rparr>]))
   \<and> assetSaver_saveAssets hanging_saver_env
       (opts_seen hanging_saver_env JNull
          (opts_of ''https://example.com/'' (audit_config two_audits None) (Some save_flags)))
       page_artifacts = Returns Never
   \<and> outcome (run hanging_saver_env JNull
       (opts_of ''https://example.com/'' (audit_config two_audits None) (Some save_flags)))
     = Returned (Fulfilled (Flat
            [\<lparr>name = ''viewport'', rawValue = page_artifacts\<rparr>,
             \<lparr>name = ''is-on-https'', rawValue = JBool True\<rparr>]))"
  by (simp add: run_def Let_def finish_def promise_then_def artifacts_chain_def save_chain_def
      saveArtifacts_step_def saveAssets_step_def
      audits_step_def statusEnd_events_def promise_all_def url_warnings_def
      opts_of_def audit_config_def node_env_def node_url_parse_def two_audits_def
      save_flags_def rejecting_saver_env_def hanging_saver_env_def page_artifacts_def)

subsection \<open>C7: an audit that fails\<close>

text \<open>
  C7. Take a run with audits to make that has got its artifacts and whose savers did not
  throw. If an audit fails, by throwing or by a promise that is rejected, the promise of
  the run is rejected with the error of a failing audit, whatever the other audits do,
  and the aggregator is not called. If exactly one audit fails, the run is rejected with
  the error of that audit.
\<close>

theorem audit_failure_rejects_run:
  assumes "artifacts_for e drv os a" and "savers_return e drv os a"
    and "audits (config os) = Some ads"
  shows "((\<exists>d\<in>set ads. call_error (audit d a) \<noteq> None) \<longrightarrow>
       (\<exists>d\<in>set ads. \<exists>err. call_error (audit d a) = Some err
          \<and> outcome (run e drv os) = Returned (Rejected err))
       \<and> filter is_aggregate (trace (run e drv os)) = [])
    \<and> (\<forall>i err. i < length ads \<and> call_error (audit (ads ! i) a) = Some err
          \<and> (\<forall>j<length ads. j \<noteq> i \<longrightarrow> call_error (audit (ads ! j) a) = None) \<longrightarrow>
          outcome (run e drv os) = Returned (Rejected err))"
proof -
  have fail: "\<exists>d'\<in>set ads. \<exists>err. call_error (audit d' a) = Some err
      \<and> outcome (run e drv os) = Returned (Rejected err)
      \<and> filter is_aggregate (trace (run e drv os)) = []"
    if dm: "d \<in> set ads" and de: "call_error (audit d a) \<noteq> None" for d
  proof -
    obtain d' err where d': "d' \<in> set ads" "call_error (audit d' a) = Some err"
      and rej: "snd (audits_step ads a) = Rejected err"
      using audits_step_failure [OF dm de] by blast
    have "outcome (run e drv os) = Returned (Rejected err)"
      using audit_phase_outcome(1) [OF assms] rej by simp
    moreover have "filter is_aggregate (trace (run e drv os)) = []"
      using audit_phase_outcome(3) [OF assms] rej by simp
    ultimately show ?thesis using d' by blast
  qed
  have single: "outcome (run e drv os) = Returned (Rejected err)"
    if i: "i < length ads" and e: "call_error (audit (ads ! i) a) = Some err"
      and others: "\<forall>j<length ads. j \<noteq> i \<longrightarrow> call_error (audit (ads ! j) a) = None"
    for i err
  proof -
    have "ads ! i \<in> set ads" using i by simp
    then obtain d' err' where d': "d' \<in> set ads" "call_error (audit d' a) = Some err'"
      and out: "outcome (run e drv os) = Returned (Rejected err')"
      using fail [of "ads ! i"] e by auto
    obtain j where j: "j < length ads" "d' = ads ! j"
      using d'(1) by (auto simp: in_set_conv_nth)
    have "j = i" using others j d'(2) by auto
    then show ?thesis using out j d'(2) e by simp
  qed
  show ?thesis using fail single by blast
qed

theorem audit_failure_rejects_run_witness:
  "call_error (audit (failing_audits ! 1) page_artifacts) = Some (Error ''no trace'')
   \<and> outcome (run node_env JNull
       (opts_of ''https://example.com/'' (audit_config failing_audits (Some (JStr ''Mobile''))) (Some no_flags)))
     = Returned (Rejected (Error ''no trace''))
   \<and> filter is_aggregate (trace (run node_env JNull
       (opts_of ''https://example.com/'' (audit_config failing_audits (Some (JStr ''Mobile''))) (Some no_flags))))
     = []"
proof -
  let ?os = "opts_of ''https://example.com/'' (audit_config failing_audits (Some (JStr ''Mobile''))) (Some no_flags)"
  have a: "artifacts_for node_env JNull ?os page_artifacts" by (rule artifacts_for_config)
  have s: "savers_return node_env JNull ?os page_artifacts" by (rule savers_return_node)
  have c: "audits (config ?os) = Some failing_audits" by (simp add: opts_of_def audit_config_def)
  have i: "(1::nat) < length failing_audits
     \<and> call_error (audit (failing_audits ! 1) page_artifacts) = Some (Error ''no trace'')
     \<and> (\<forall>j<length failing_audits. j \<noteq> 1 \<longrightarrow>
          call_error (audit (failing_audits ! j) page_artifacts) = None)"
    by (simp add: failing_audits_def nth_Cons' less_Suc_eq)
  have d: "\<exists>d\<in>set failing_audits. call_error (audit d page_artifacts) \<noteq> None"
    by (simp add: failing_audits_def)
  show ?thesis
    using audit_failure_rejects_run [OF a s c] i d by blast
qed

subsection \<open>C8: the URL\<close>

text \<open>
  C8. Every run records the URL it was given as \<^verbatim>\<open>initialUrl\<close> and replaces \<^verbatim>\<open>url\<close> by
  what \<^verbatim>\<open>url.format\<close> makes of the parsed URL, and a report carries these two values:
  whatever report a run is fulfilled with has them, and a run with an aggregation is
  fulfilled with such a report when the aggregator answers, on the audit results of the
  configuration or on the values of the audits.
  When the protocol is \<^verbatim>\<open>http:\<close>, as for \<^verbatim>\<open>http://example.com\<close>, exactly the two
  warnings are logged and the check does not end the run: the call only throws for a
  configuration of no mode or for missing flags. When the protocol is \<^verbatim>\<open>https:\<close> and the
  host name \<^verbatim>\<open>example.com\<close>, as for \<^verbatim>\<open>https://example.com/\<close>, no warning is logged.
\<close>

theorem url_recorded_and_checked:
  "initialUrl (opts_after (run e drv os)) = Some (url os)
   \<and> url (opts_after (run e drv os)) = url_format e (url_parse e (url os))
   \<and> (outcome (run e drv os) = Returned (Fulfilled (Report rep)) \<longrightarrow>
        report_initialUrl rep = Some (url os)
        \<and> report_url rep = url_format e (url_parse e (url os)))
   \<and> (modeC (config os) \<and> protocol (url_parse e (url os)) \<noteq> None
        \<and> aggregations (config os) = Some spec
        \<and> adopt (Aggregator_aggregate e spec (the (auditResults (config os)))) = Fulfilled aggs
        \<longrightarrow>
        outcome (run e drv os) = Returned (Fulfilled (Report
          \<lparr>report_initialUrl = Some (url os),
           report_url = url_format e (url_parse e (url os)),
           report_audits = formattedAudits (the (auditResults (config os))),
           report_aggregations = aggs\<rparr>)))
   \<and> (artifacts_for e drv os a \<and> savers_return e drv os a
        \<and> map (\<lambda>d. call_value (audit d a)) (the (audits (config os))) = map Some vs
        \<and> aggregations (config os) = Some spec
        \<and> adopt (Aggregator_aggregate e spec vs) = Fulfilled aggs \<longrightarrow>
        outcome (run e drv os) = Returned (Fulfilled (Report
          \<lparr>report_initialUrl = Some (url os),
           report_url = url_format e (url_parse e (url os)),
           report_audits = formattedAudits vs,
           report_aggregations = aggs\<rparr>)))
   \<and> (protocol (url_parse e (url os)) = Some ''http:'' \<longrightarrow>
        filter is_warn (trace (run e drv os)) = https_warnings
        \<and> (\<forall>err. outcome (run e drv os) = Thrown err \<longrightarrow>
              \<not> modeA (config os) \<and> \<not> modeB (config os) \<and> \<not> modeC (config os)
                \<and> err = config_error
              \<or> (modeA (config os) \<or> modeB (config os)) \<and> flags os = None))
   \<and> (protocol (url_parse e (url os)) = Some ''https:''
        \<and> hostname (url_parse e (url os)) = Some ''example.com'' \<longrightarrow>
        filter is_warn (trace (run e drv os)) = [])"
proof (intro conjI impI allI)
  show "initialUrl (opts_after (run e drv os)) = Some (url os)"
    by (simp add: opts_after_run opts_seen_fields)
  show "url (opts_after (run e drv os)) = url_format e (url_parse e (url os))"
    by (simp add: opts_after_run opts_seen_fields)
next
  assume "outcome (run e drv os) = Returned (Fulfilled (Report rep))"
  then show "report_initialUrl rep = Some (url os)"
    and "report_url rep = url_format e (url_parse e (url os))"
    using report_urls by blast+
next
  assume "modeC (config os) \<and> protocol (url_parse e (url os)) \<noteq> None
        \<and> aggregations (config os) = Some spec
        \<and> adopt (Aggregator_aggregate e spec (the (auditResults (config os)))) = Fulfilled aggs"
  then show "outcome (run e drv os) = Returned (Fulfilled (Report
          \<lparr>report_initialUrl = Some (url os),
           report_url = url_format e (url_parse e (url os)),
           report_audits = formattedAudits (the (auditResults (config os))),
           report_aggregations = aggs\<rparr>))"
    by (simp add: modeC_outcome final_promise_def)
next
  assume h: "artifacts_for e drv os a \<and> savers_return e drv os a
        \<and> map (\<lambda>d. call_value (audit d a)) (the (audits (config os))) = map Some vs
        \<and> aggregations (config os) = Some spec
        \<and> adopt (Aggregator_aggregate e spec vs) = Fulfilled aggs"
  then obtain ads where ads: "audits (config os) = Some ads"
    by (auto simp: artifacts_for_def modeA_def modeB_def)
  then have "snd (audits_step ads a) = Fulfilled vs"
    using h audits_step_values(2) [of a ads vs] by simp
  then have "outcome (run e drv os) = Returned (final_promise e os vs)"
    using h ads audit_phase_outcome(1) [of e drv os a ads] by simp
  then show "outcome (run e drv os) = Returned (Fulfilled (Report
          \<lparr>report_initialUrl = Some (url os),
           report_url = url_format e (url_parse e (url os)),
           report_audits = formattedAudits vs,
           report_aggregations = aggs\<rparr>))"
    using h by (simp add: final_promise_def)
next
  assume "protocol (url_parse e (url os)) = Some ''http:''"
  then show "filter is_warn (trace (run e drv os)) = https_warnings"
    by (simp add: warn_calls url_warnings_def)
next
  fix err
  assume "protocol (url_parse e (url os)) = Some ''http:''"
    and "outcome (run e drv os) = Thrown err"
  then show "\<not> modeA (config os) \<and> \<not> modeB (config os) \<and> \<not> modeC (config os)
                \<and> err = config_error
              \<or> (modeA (config os) \<or> modeB (config os)) \<and> flags os = None"
    using thrown_cases [of e drv os err] by auto
next
  assume "protocol (url_parse e (url os)) = Some ''https:''
        \<and> hostname (url_parse e (url os)) = Some ''example.com''"
  then show "filter is_warn (trace (run e drv os)) = []"
    by (simp add: warn_calls url_warnings_def)
qed

theorem url_recorded_and_checked_witness:
  "protocol (url_parse node_env ''http://example.com'') = Some ''http:''
   \<and> filter is_warn
       (trace (run node_env JNull (opts_of ''http://example.com'' results_config (Some no_flags))))
       = [Warn ''Lighthouse'' ''The URL provided should be on HTTPS'',
          Warn ''Lighthouse''
            ''Performance stats will be skewed redirecting from HTTP to HTTPS.'']
   \<and> initialUrl (opts_after
         (run node_env JNull (opts_of ''http://example.com'' results_config (Some no_flags))))
       = Some ''http://example.com''
   \<and> url (opts_after
         (run node_env JNull (opts_of ''http://example.com'' results_config (Some no_flags))))
       = ''http://example.com/''
   \<and> outcome (run node_env JNull (opts_of ''http://example.com'' results_config (Some no_flags)))
       = Returned (Fulfilled (Report
           \<lparr>report_initialUrl = Some ''http://example.com'',
            report_url = ''http://example.com/'',
            report_audits = formattedAudits two_results,
            report_aggregations = JArr [JStr ''Best Practices'', JNum 2]\<rparr>))
   \<and> outcome (run node_env JNull
         (opts_of ''http://example.com'' (audit_config two_audits (Some (JStr ''Mobile'')))
            (Some no_flags)))
       = Returned (Fulfilled (Report
           \<lparr>report_initialUrl = Some ''http://example.com'',
            report_url = ''http://example.com/'',
            report_audits = formattedAudits
              [\<lparr>name = ''viewport'', rawValue = page_artifacts\<rparr>,
               \<lparr>name = ''is-on-https'', rawValue = JBool True\<rparr>],
            report_aggregations = JArr [JStr ''Mobile'', JNum 2]\<rparr>))
   \<and> protocol (url_parse node_env ''https://example.com/'') = Some ''https:''
   \<and> hostname (url_parse node_env ''https://example.com/'') = Some ''example.com''
   \<and> filter is_warn
       (trace (run node_env JNull (opts_of ''https://example.com/'' results_config (Some no_flags))))
       = []"
proof -
  let ?os = "opts_of ''http://example.com'' results_config (Some no_flags)"
  let ?ob = "opts_of ''http://example.com'' (audit_config two_audits (Some (JStr ''Mobile'')))
    (Some no_flags)"
  let ?oh = "opts_of ''https://example.com/'' results_config (Some no_flags)"
  let ?vs = "[\<lparr>name = ''viewport'', rawValue = page_artifacts\<rparr>,
             \<lparr>name = ''is-on-https'', rawValue = JBool True\<rparr>]"
  have p: "protocol (url_parse node_env (url ?os)) = Some ''http:''"
    by (simp add: node_env_def node_url_parse_def opts_of_def)
  have h: "protocol (url_parse node_env (url ?oh)) = Some ''https:''
      \<and> hostname (url_parse node_env (url ?oh)) = Some ''example.com''"
    by (simp add: node_env_def node_url_parse_def opts_of_def)
  have c: "modeC (config ?os) \<and> protocol (url_parse node_env (url ?os)) \<noteq> None
      \<and> aggregations (config ?os) = Some (JStr ''Best Practices'')
      \<and> adopt (Aggregator_aggregate node_env (JStr ''Best Practices'')
            (the (auditResults (config ?os))))
          = Fulfilled (JArr [JStr ''Best Practices'', JNum 2])"
    by (simp add: node_env_def node_url_parse_def opts_of_def results_config_def
        modeA_def modeB_def modeC_def two_results_def)
  have b1: "artifacts_for node_env JNull ?ob page_artifacts"
    by (simp add: artifacts_for_def node_env_def node_url_parse_def opts_of_def
        audit_config_def modeA_def modeB_def)
  have b2: "savers_return node_env JNull ?ob page_artifacts" by (rule savers_return_node)
  have b3: "map (\<lambda>d. call_value (audit d page_artifacts)) (the (audits (config ?ob))) = map Some ?vs
      \<and> aggregations (config ?ob) = Some (JStr ''Mobile'')
      \<and> adopt (Aggregator_aggregate node_env (JStr ''Mobile'') ?vs)
          = Fulfilled (JArr [JStr ''Mobile'', JNum 2])"
    by (simp add: node_env_def opts_of_def audit_config_def two_audits_def)
  note b = conjI [OF b1 conjI [OF b2 b3]]
  note s = url_recorded_and_checked
    [where e = node_env and drv = JNull and os = ?os and spec = "JStr ''Best Practices''"
       and aggs = "JArr [JStr ''Best Practices'', JNum 2]"]
  note t = url_recorded_and_checked
    [where e = node_env and drv = JNull and os = ?ob and spec = "JStr ''Mobile''"
       and aggs = "JArr [JStr ''Mobile'', JNum 2]" and a = page_artifacts and vs = ?vs]
  note u = url_recorded_and_checked [where e = node_env and drv = JNull and os = ?oh]
  have w1: "protocol (url_parse node_env ''http://example.com'') = Some ''http:''"
    by (simp add: node_env_def node_url_parse_def)
  have w2: "filter is_warn (trace (run node_env JNull ?os))
       = [Warn ''Lighthouse'' ''The URL provided should be on HTTPS'',
          Warn ''Lighthouse''
            ''Performance stats will be skewed redirecting from HTTP to HTTPS.'']"
    using s [THEN conjunct2, THEN conjunct2, THEN conjunct2, THEN conjunct2, THEN conjunct2,
        THEN conjunct1, THEN mp, OF p, THEN conjunct1]
    by (simp add: https_warnings_def)
  have w3: "initialUrl (opts_after (run node_env JNull ?os)) = Some ''http://example.com''"
    using s [THEN conjunct1] by (simp add: opts_of_def)
  have w4: "url (opts_after (run node_env JNull ?os)) = ''http://example.com/''"
    using s [THEN conjunct2, THEN conjunct1]
    by (simp add: opts_of_def node_env_def node_url_parse_def)
  have w5: "outcome (run node_env JNull ?os)
       = Returned (Fulfilled (Report
           \<lparr>report_initialUrl = Some ''http://example.com'',
            report_url = ''http://example.com/'',
            report_audits = formattedAudits two_results,
            report_aggregations = JArr [JStr ''Best Practices'', JNum 2]\<rparr>))"
    using s [THEN conjunct2, THEN conjunct2, THEN conjunct2, THEN conjunct1, THEN mp, OF c]
    by (simp add: opts_of_def node_env_def node_url_parse_def results_config_def)
  have w6: "outcome (run node_env JNull ?ob)
       = Returned (Fulfilled (Report
           \<lparr>report_initialUrl = Some ''http://example.com'',
            report_url = ''http://example.com/'',
            report_audits = formattedAudits ?vs,
            report_aggregations = JArr [JStr ''Mobile'', JNum 2]\<rparr>))"
    using t [THEN conjunct2, THEN conjunct2, THEN conjunct2, THEN conjunct2, THEN conjunct1,
        THEN mp, OF b]
    by (simp add: opts_of_def node_env_def node_url_parse_def)
  have w7: "protocol (url_parse node_env ''https://example.com/'') = Some ''https:''"
    "hostname (url_parse node_env ''https://example.com/'') = Some ''example.com''"
    by (simp_all add: node_env_def node_url_parse_def)
  have w8: "filter is_warn (trace (run node_env JNull ?oh)) = []"
    using u [THEN conjunct2, THEN conjunct2, THEN conjunct2, THEN conjunct2, THEN conjunct2,
        THEN conjunct2, THEN mp, OF h] .
  show ?thesis
    using w1 w2 w3 w4 w5 w6 w7 w8 by (intro conjI)
qed

subsection \<open>C9: the options object\<close>

text \<open>
  C9, as the code has it. A run leaves \<^verbatim>\<open>opts.config\<close> and \<^verbatim>\<open>opts.flags\<close> as they are
  and writes the options object itself: \<^verbatim>\<open>initialUrl\<close> becomes the URL given (line 32),
  \<^verbatim>\<open>url\<close> its canonical form (line 35), and with passes and audits \<^verbatim>\<open>driver\<close> becomes
  the driver (line 55).
\<close>

theorem run_writes_url_fields_and_driver:
  "config (opts_after (run e drv os)) = config os
   \<and> flags (opts_after (run e drv os)) = flags os
   \<and> initialUrl (opts_after (run e drv os)) = Some (url os)
   \<and> url (opts_after (run e drv os)) = url_format e (url_parse e (url os))
   \<and> driver (opts_after (run e drv os))
       = (if protocol (url_parse e (url os)) \<noteq> None \<and> modeA (config os)
          then Some drv else driver os)"
proof -
  have "opts_after (run e drv os) = opts_seen e drv os" by (rule opts_after_run)
  then show ?thesis by (simp add: opts_seen_fields driver_opts_seen)
qed

theorem run_writes_url_fields_and_driver_witness:
  "config (opts_after (run node_env (JStr ''driver'')
      (opts_of ''http://example.com'' gather_config (Some no_flags)))) = gather_config
   \<and> flags (opts_after (run node_env (JStr ''driver'')
      (opts_of ''http://example.com'' gather_config (Some no_flags)))) = Some no_flags
   \<and> initialUrl (opts_after (run node_env (JStr ''driver'')
      (opts_of ''http://example.com'' gather_config (Some no_flags)))) = Some ''http://example.com''
   \<and> url (opts_after (run node_env (JStr ''driver'')
      (opts_of ''http://example.com'' gather_config (Some no_flags)))) = ''http://example.com/''
   \<and> driver (opts_after (run node_env (JStr ''driver'')
      (opts_of ''http://example.com'' gather_config (Some no_flags)))) = Some (JStr ''driver'')"
  using run_writes_url_fields_and_driver
    [of node_env "JStr ''driver''" "opts_of ''http://example.com'' gather_config (Some no_flags)"]
  by (simp add: node_env_def node_url_parse_def opts_of_def modeA_def gather_config_def)

text \<open>
  C9 as stated fails for every run: here the options object comes back with another
  \<^verbatim>\<open>url\<close> and with an \<^verbatim>\<open>initialUrl\<close> it did not have.
\<close>

theorem options_mutated_counterexample:
  "opts_after (run node_env JNull (opts_of ''http://example.com'' results_config (Some no_flags)))
     \<noteq> opts_of ''http://example.com'' results_config (Some no_flags)
   \<and> url (opts_after (run node_env JNull (opts_of ''http://example.com'' results_config (Some no_flags))))
     \<noteq> url (opts_of ''http://example.com'' results_config (Some no_flags))
   \<and> initialUrl (opts_after (run node_env JNull (opts_of ''http://example.com'' results_config (Some no_flags))))
     \<noteq> initialUrl (opts_of ''http://example.com'' results_config (Some no_flags))"
proof -
  let ?os = "opts_of ''http://example.com'' results_config (Some no_flags)"
  have u: "url (opts_after (run node_env JNull ?os)) = ''http://example.com/''"
    by (simp add: opts_after_run opts_seen_fields node_env_def node_url_parse_def opts_of_def)
  have i: "initialUrl (opts_after (run node_env JNull ?os)) = Some ''http://example.com''"
    by (simp add: opts_after_run opts_seen_fields node_env_def node_url_parse_def opts_of_def)
  have "url (opts_after (run node_env JNull ?os)) \<noteq> url ?os"
    using u by (simp add: opts_of_def)
  then have "opts_after (run node_env JNull ?os) \<noteq> ?os"
    by (rule contrapos_nn) simp
  then show ?thesis using u i by (simp add: opts_of_def)
qed

subsection \<open>C10: the flags\<close>

text \<open>
  C10. With passes and audits, or artifacts and audits, a call without a flags object
  throws a \<^verbatim>\<open>TypeError\<close> synchronously and no audit is ever called. With audit results
  only, the flags are not read: the outcome and the trace are the same whatever the flags
  field holds, and the call returns a promise when the URL parses with a protocol.
\<close>

theorem flags_read_in_audit_modes_only:
  "(modeA (config os) \<or> modeB (config os) \<longrightarrow> flags os = None \<longrightarrow>
      (\<exists>m. outcome (run e drv os) = Thrown (TypeError m))
      \<and> filter is_audit (trace (run e drv os)) = [])
   \<and> (modeC (config os) \<longrightarrow>
        outcome (run e drv (os\<lparr>flags := fl\<rparr>)) = outcome (run e drv os)
        \<and> trace (run e drv (os\<lparr>flags := fl\<rparr>)) = trace (run e drv os))
   \<and> (modeC (config os) \<longrightarrow> protocol (url_parse e (url os)) \<noteq> None \<longrightarrow>
        (\<exists>p. outcome (run e drv os) = Returned p))"
proof (intro conjI impI)
  assume m: "modeA (config os) \<or> modeB (config os)" and f: "flags os = None"
  show "\<exists>m. outcome (run e drv os) = Thrown (TypeError m)"
    using m f by (cases "protocol (url_parse e (url os))") (simp_all add: run_no_protocol run_no_flags)
  show "filter is_audit (trace (run e drv os)) = []"
    using m f
    by (cases "protocol (url_parse e (url os))")
       (simp_all add: run_no_protocol run_no_flags filter_url_warnings filter_artifacts_chain)
next
  assume c: "modeC (config os)"
  then have c': "modeC (config (os\<lparr>flags := fl\<rparr>))" by simp
  show "outcome (run e drv (os\<lparr>flags := fl\<rparr>)) = outcome (run e drv os)"
  proof (cases "protocol (url_parse e (url os))")
    case None
    then show ?thesis by (simp add: run_no_protocol)
  next
    case (Some proto)
    then show ?thesis
      using c modeC_run [OF c', of e proto drv]
      by (simp add: modeC_run outcome_finish opts_seen_fields cong: option.case_cong promise.case_cong)
  qed
  show "trace (run e drv (os\<lparr>flags := fl\<rparr>)) = trace (run e drv os)"
  proof (cases "protocol (url_parse e (url os))")
    case None
    then show ?thesis by (simp add: run_no_protocol)
  next
    case (Some proto)
    then show ?thesis
      using c modeC_run [OF c', of e proto drv]
      by (simp add: modeC_run trace_finish opts_seen_fields)
  qed
next
  assume c: "modeC (config os)" and p: "protocol (url_parse e (url os)) \<noteq> None"
  then show "\<exists>p. outcome (run e drv os) = Returned p"
    by (auto simp: modeC_run outcome_finish)
qed

theorem flags_read_in_audit_modes_only_witness:
  "modeA (config (opts_of ''https://example.com/'' gather_config None))
   \<and> (\<exists>m. outcome (run node_env JNull (opts_of ''https://example.com/'' gather_config None))
       = Thrown (TypeError m))
   \<and> filter is_audit (trace (run node_env JNull (opts_of ''https://example.com/'' gather_config None))) = []
   \<and> modeC (config (opts_of ''https://example.com/'' results_config None))
   \<and> outcome (run node_env JNull (opts_of ''https://example.com/'' results_config (Some no_flags)))
       = outcome (run node_env JNull (opts_of ''https://example.com/'' results_config None))
   \<and> (\<exists>p. outcome (run node_env JNull (opts_of ''https://example.com/'' results_config None))
       = Returned p)"
  using flags_read_in_audit_modes_only
    [of "opts_of ''https://example.com/'' gather_config None" node_env JNull "Some no_flags"]
    flags_read_in_audit_modes_only
    [of "opts_of ''https://example.com/'' results_config None" node_env JNull "Some no_flags"]
  by (simp add: node_env_def node_url_parse_def opts_of_def modeA_def modeB_def modeC_def
      gather_config_def results_config_def)

end
